theory Spec2Isabelle
  imports Complex_Main "HOL-Library.Sublist"
begin

section \<open>Creator Reels: the page component of src/app/page.tsx\<close>

text \<open>
  The source file holds two revisions of the same component \<open>Page\<close>: lines 1-285
  (headed "Modern UI", called the modern revision below) and lines 286-468 (headed
  "Hardened and Null-Safe", called the hardened revision). Where the text of a function
  is the same in both, one definition stands for both; where it differs, there is one
  definition per revision, with the suffix \<open>_modern\<close> or \<open>_hardened\<close>.

  JavaScript numbers that hold list indices are modelled as \<open>int\<close>. Pointer coordinates
  are finite binary64 numbers, modelled as the \<open>real\<close> numbers they denote, with the
  subtraction rounded as binary64 rounds it. Strings are lists of 8-bit characters read
  as the code points 0-255.
\<close>

subsection \<open>Strings: toLowerCase, trim, includes\<close>

text \<open>\<open>String.prototype.toLowerCase\<close> on the code points 0-255: A-Z and the
  Latin-1 capitals 0xC0-0xDE (without the multiplication sign 0xD7) move up by 32.\<close>

definition lowerChar :: "char \<Rightarrow> char" where
  "lowerChar c =
     (let n = (of_char c :: nat) in
      if (65 \<le> n \<and> n \<le> 90) \<or> (192 \<le> n \<and> n \<le> 222 \<and> n \<noteq> 215)
      then char_of (n + 32) else c)"

definition toLowerCase :: "string \<Rightarrow> string" where
  "toLowerCase s = map lowerChar s"

text \<open>White space and line terminators that \<open>trim\<close> strips, among the code points
  0-255: TAB, LF, VT, FF, CR, SPACE and NBSP.\<close>

definition isWhiteSpace :: "char \<Rightarrow> bool" where
  "isWhiteSpace c = ((of_char c :: nat) \<in> {9, 10, 11, 12, 13, 32, 160})"

definition trim :: "string \<Rightarrow> string" where
  "trim s = rev (dropWhile isWhiteSpace (rev (dropWhile isWhiteSpace s)))"

text \<open>\<open>t.includes(q)\<close>: the search string occurs at some position of \<open>t\<close>.\<close>

fun str_includes :: "string \<Rightarrow> string \<Rightarrow> bool" where
  "str_includes [] q = (q = [])"
| "str_includes (c # cs) q = (prefix q (c # cs) \<or> str_includes cs q)"

subsection \<open>Data\<close>

text \<open>\<open>interface Model\<close>; \<open>tags\<close> is optional.\<close>

record Model =
  name :: string
  url :: string
  image_src :: string
  tags :: "string list option"

text \<open>\<open>Partial<Model>\<close>: every field may be missing.\<close>

record RawModel =
  raw_name :: "string option"
  raw_url :: "string option"
  raw_image :: "string option"
  raw_tags :: "string list option"

definition RAW_MODELS :: "RawModel list" where
  "RAW_MODELS =
     [\<lparr>raw_name = Some ''Charvi Bhatt'',
       raw_url = Some ''https://link-shortner-indol-nu.vercel.app/v0riwp'',
       raw_image = Some ''https://i.ibb.co/xqwpVcCB/IMG-20251110-003150-720.jpg'',
       raw_tags = Some [''actress'', ''biography'', ''reels'']\<rparr>,
      \<lparr>raw_name = Some ''Arushi Chatterjee'',
       raw_url = Some ''https://link-shortner-indol-nu.vercel.app/gpvegn'',
       raw_image = Some ''https://i.ibb.co/5WrM1PSf/photo-2025-11-10-08-09-45.jpg'',
       raw_tags = Some [''actress'', ''bio'']\<rparr>,
      \<lparr>raw_name = Some ''Your Creator 3'',
       raw_url = Some ''#'',
       raw_image = Some ''https://placehold.co/720x1280?text=Creator+3%5Cn9:16'',
       raw_tags = Some [''new'']\<rparr>]"

text \<open>The \<open>.map\<close> of the normalisation: \<open>x ?? d\<close> takes \<open>d\<close> for a missing field, and a
  missing \<open>tags\<close> becomes the empty array. (The \<open>.filter\<close> before it keeps every object.)\<close>

definition normalize :: "RawModel \<Rightarrow> Model" where
  "normalize m =
     \<lparr>name = (case raw_name m of Some n \<Rightarrow> n | None \<Rightarrow> ''Unnamed''),
      url = (case raw_url m of Some u \<Rightarrow> u | None \<Rightarrow> ''#''),
      image_src = (case raw_image m of Some i \<Rightarrow> i
                   | None \<Rightarrow> ''https://placehold.co/720x1280?text=Image+Missing%5Cn9:16''),
      tags = (case raw_tags m of Some ts \<Rightarrow> Some ts | None \<Rightarrow> Some [])\<rparr>"

definition MODELS :: "Model list" where
  "MODELS = map normalize RAW_MODELS"

subsection \<open>The filter\<close>

text \<open>\<open>[m.name, ...(m.tags || [])]\<close>\<close>

definition nameAndTags :: "Model \<Rightarrow> string list" where
  "nameAndTags m = name m # (case tags m of Some ts \<Rightarrow> ts | None \<Rightarrow> [])"

text \<open>The predicate handed to \<open>.filter\<close>:
  \<open>[m.name, ...(m.tags || [])].some((t) => t.toLowerCase().includes(q))\<close>.\<close>

definition someIncludes :: "string \<Rightarrow> Model \<Rightarrow> bool" where
  "someIncludes q m = list_ex (\<lambda>t. str_includes (toLowerCase t) q) (nameAndTags m)"

text \<open>The memo \<open>filtered\<close> (lines 101-106 and 368-373), with the directory it closes over
  as its first argument. The modern revision returns copies (\<open>[...MODELS]\<close>) where the
  hardened one returns \<open>MODELS\<close> itself; as values the two are the same list.\<close>

definition filtered :: "Model list \<Rightarrow> string \<Rightarrow> Model list" where
  "filtered models qry =
     (let q = toLowerCase (trim qry) in
      if q = [] then models
      else
        let result = filter (someIncludes q) models in
        if length result > 0 then result else models)"

subsection \<open>The cursor\<close>

text \<open>The remainder operator \<open>%\<close> on integers: the result has the sign of the dividend.
  (Its divisor below is \<open>cycleLen\<close>, which is at least 1.)\<close>

definition js_rem :: "int \<Rightarrow> int \<Rightarrow> int" where
  "js_rem a b = sgn a * (\<bar>a\<bar> mod \<bar>b\<bar>)"

definition cycleLen :: "Model list \<Rightarrow> int" where
  "cycleLen fs = max (int (length fs)) 1"

text \<open>The updaters that \<open>next\<close> and \<open>prev\<close> hand to \<open>setIndex\<close>; \<open>cl\<close> is the
  \<open>cycleLen\<close> of the render whose \<open>next\<close> or \<open>prev\<close> is called.\<close>

definition next' :: "int \<Rightarrow> int \<Rightarrow> int" where
  "next' cl i = js_rem (i + 1) cl"

definition prev :: "int \<Rightarrow> int \<Rightarrow> int" where
  "prev cl i = js_rem (i - 1 + cl) cl"

text \<open>The clamp effect. Modern revision (lines 109-112):
  \<^verbatim>\<open>if (filtered.length === 0) { if (index !== 0) setIndex(0); return; }
  if (index >= filtered.length || index < 0) setIndex(0);\<close>\<close>

definition clampIndex_modern :: "Model list \<Rightarrow> int \<Rightarrow> int" where
  "clampIndex_modern fs i =
     (if length fs = 0 then (if i \<noteq> 0 then 0 else i)
      else if i \<ge> int (length fs) \<or> i < 0 then 0 else i)"

text \<open>Hardened revision (lines 375-377): \<^verbatim>\<open>if (index >= filtered.length) setIndex(0);\<close>\<close>

definition clampIndex_hardened :: "Model list \<Rightarrow> int \<Rightarrow> int" where
  "clampIndex_hardened fs i = (if i \<ge> int (length fs) then 0 else i)"

text \<open>\<open>xs[i]\<close> on an array: \<open>undefined\<close> (here \<open>None\<close>) outside \<open>0 .. length - 1\<close>.\<close>

definition js_nth :: "'a list \<Rightarrow> int \<Rightarrow> 'a option" where
  "js_nth xs i = (if 0 \<le> i \<and> i < int (length xs) then Some (xs ! nat i) else None)"

text \<open>\<open>x ?? null\<close>: \<open>undefined\<close> and \<open>null\<close> are both \<open>None\<close>.\<close>

definition orNull :: "'a option \<Rightarrow> 'a option" where
  "orNull x = (case x of Some v \<Rightarrow> Some v | None \<Rightarrow> None)"

text \<open>Line 169: \<^verbatim>\<open>filtered.length > 0 ? (filtered[index] ?? null) : null\<close>\<close>

definition current_modern :: "Model list \<Rightarrow> int \<Rightarrow> Model option" where
  "current_modern fs i = (if length fs > 0 then orNull (js_nth fs i) else None)"

text \<open>Line 439: \<^verbatim>\<open>filtered[index] ?? null\<close>\<close>

definition current_hardened :: "Model list \<Rightarrow> int \<Rightarrow> Model option" where
  "current_hardened fs i = orNull (js_nth fs i)"

text \<open>What the reel canvas shows: \<^verbatim>\<open>current ? <card> : <empty state>\<close>.\<close>

datatype view = Card Model | EmptyState

definition canvas :: "Model option \<Rightarrow> view" where
  "canvas cur = (case cur of Some m \<Rightarrow> Card m | None \<Rightarrow> EmptyState)"

subsection \<open>The browser and the component's state\<close>

text \<open>A statement either completes normally with a value or throws.\<close>

datatype 'a completion = Normal 'a | Throw

text \<open>
  What the handlers use of the browser: whether \<open>window\<close> is defined, whether a call of
  \<open>window.sessionStorage.getItem\<close>, \<open>window.sessionStorage.setItem\<close> or
  \<open>window.open\<close> throws, the session store, and \<open>open_calls\<close>, the URLs handed to
  \<open>window.open\<close> so far, in call order.
\<close>

record browser =
  window_defined :: bool
  getItem_throws :: bool
  setItem_throws :: bool
  open_throws :: "string \<Rightarrow> bool"
  sessionStorage :: "string \<rightharpoonup> string"
  open_calls :: "string list"

text \<open>The state of \<open>Page\<close>: the build-time environment variable, the three
  \<open>useState\<close> cells and the two refs.\<close>

record page = browser +
  NEXT_PUBLIC_MONETAG_URL :: "string option"
  index :: int
  query :: string
  interstitialFor :: "Model option"
  wheelLock :: bool
  touchY :: "real option"

type_synonym handler = "page \<Rightarrow> unit completion \<times> page"

definition skip :: handler where
  "skip s = (Normal (), s)"

text \<open>\<open>c; d\<close>: a throw of \<open>c\<close> leaves the handler.\<close>

definition andThen :: "handler \<Rightarrow> handler \<Rightarrow> handler" where
  "andThen c d s = (case c s of (Normal _, s') \<Rightarrow> d s' | (Throw, s') \<Rightarrow> (Throw, s'))"

text \<open>\<^verbatim>\<open>try { c } catch {}\<close>\<close>

definition try_catch :: "handler \<Rightarrow> handler" where
  "try_catch c s = (case c s of (Normal _, s') \<Rightarrow> (Normal (), s') | (Throw, s') \<Rightarrow> (Normal (), s'))"

text \<open>\<^verbatim>\<open>window.open(u, "_blank", "noopener,noreferrer")\<close>: a reference error when
  \<open>window\<close> is not defined; otherwise the call is made, and may throw.\<close>

definition window_open :: "string \<Rightarrow> handler" where
  "window_open u s =
     (if \<not> window_defined s then (Throw, s)
      else if open_throws s u then (Throw, s\<lparr>open_calls := open_calls s @ [u]\<rparr>)
      else (Normal (), s\<lparr>open_calls := open_calls s @ [u]\<rparr>))"

definition sessionStorage_getItem :: "string \<Rightarrow> page \<Rightarrow> string option completion" where
  "sessionStorage_getItem k s = (if getItem_throws s then Throw else Normal (sessionStorage s k))"

definition sessionStorage_setItem :: "string \<Rightarrow> string \<Rightarrow> handler" where
  "sessionStorage_setItem k v s =
     (if setItem_throws s then (Throw, s)
      else (Normal (), s\<lparr>sessionStorage := (sessionStorage s)(k \<mapsto> v)\<rparr>))"

text \<open>Line 95 and 363:
  \<^verbatim>\<open>(process?.env?.NEXT_PUBLIC_MONETAG_URL as string) || "https://otieu.com/4/9449507"\<close>\<close>

definition adUrl :: "page \<Rightarrow> string" where
  "adUrl s =
     (case NEXT_PUBLIC_MONETAG_URL s of
        Some u \<Rightarrow> if u \<noteq> [] then u else ''https://otieu.com/4/9449507''
      | None \<Rightarrow> ''https://otieu.com/4/9449507'')"

definition onceKey :: string where
  "onceKey = ''monetag_interstitial_once''"

subsection \<open>The session gate\<close>

text \<open>Lines 119-121 and 383-385:
  \<^verbatim>\<open>try { return typeof window !== "undefined" ? window.sessionStorage.getItem(k) : null; }
  catch { return null; }\<close>\<close>

definition safeGetSession :: "string \<Rightarrow> page \<Rightarrow> string option completion" where
  "safeGetSession k s =
     (case (if window_defined s then sessionStorage_getItem k s else Normal None) of
        Normal v \<Rightarrow> Normal v
      | Throw \<Rightarrow> Normal None)"

text \<open>Lines 122-124 and 386-388:
  \<^verbatim>\<open>try { if (typeof window !== "undefined") window.sessionStorage.setItem(k, v); } catch {}\<close>\<close>

definition safeSetSession :: "string \<Rightarrow> string \<Rightarrow> handler" where
  "safeSetSession k v = try_catch (\<lambda>s. if window_defined s then sessionStorage_setItem k v s else skip s)"

text \<open>The test \<^verbatim>\<open>safeGetSession(onceKey) === "1"\<close> of \<open>openLink\<close>, as a predicate of the state.\<close>

definition shown :: "page \<Rightarrow> bool" where
  "shown s = (safeGetSession onceKey s = Normal (Some ''1''))"

subsection \<open>The link dispatcher\<close>

definition setInterstitialFor :: "Model option \<Rightarrow> handler" where
  "setInterstitialFor v s = (Normal (), s\<lparr>interstitialFor := v\<rparr>)"

text \<open>Lines 126-131:
  \<^verbatim>\<open>if (!m || !m.url) return;
  const shown = safeGetSession(onceKey) === "1";
  if (adUrl && !shown) { setInterstitialFor(m); return; }
  try { window.open(m.url, "_blank", "noopener,noreferrer"); } catch {}\<close>\<close>

definition openLink_modern :: "Model option \<Rightarrow> handler" where
  "openLink_modern m s =
     (case m of
        None \<Rightarrow> (Normal (), s)
      | Some r \<Rightarrow>
          if url r = [] then (Normal (), s)
          else
            (case safeGetSession onceKey s of
               Throw \<Rightarrow> (Throw, s)
             | Normal v \<Rightarrow>
                 if adUrl s \<noteq> [] \<and> \<not> (v = Some ''1'') then setInterstitialFor (Some r) s
                 else try_catch (window_open (url r)) s))"

text \<open>Lines 390-398: the same, with the last line
  \<^verbatim>\<open>window.open(m.url, "_blank", "noopener,noreferrer");\<close> outside any \<open>try\<close>.\<close>

definition openLink_hardened :: "Model option \<Rightarrow> handler" where
  "openLink_hardened m s =
     (case m of
        None \<Rightarrow> (Normal (), s)
      | Some r \<Rightarrow>
          if url r = [] then (Normal (), s)
          else
            (case safeGetSession onceKey s of
               Throw \<Rightarrow> (Throw, s)
             | Normal v \<Rightarrow>
                 if adUrl s \<noteq> [] \<and> \<not> (v = Some ''1'') then setInterstitialFor (Some r) s
                 else window_open (url r) s))"

text \<open>Lines 133-139:
  \<^verbatim>\<open>const m = interstitialFor; setInterstitialFor(null);
  if (!m?.url) return;
  if (adUrl) { try { window.open(adUrl, "_blank", "noopener,noreferrer"); } catch {} }
  safeSetSession(onceKey, "1");
  try { window.open(m.url, "_blank", "noopener,noreferrer"); } catch {}\<close>\<close>

definition proceed_modern :: handler where
  "proceed_modern s =
     (let m = interstitialFor s in
      andThen (setInterstitialFor None)
        (case m of
           None \<Rightarrow> skip
         | Some r \<Rightarrow>
             if url r = [] then skip
             else
               andThen (if adUrl s \<noteq> [] then try_catch (window_open (adUrl s)) else skip)
                 (andThen (safeSetSession onceKey ''1'')
                    (try_catch (window_open (url r))))) s)"

text \<open>Lines 400-406:
  \<^verbatim>\<open>const m = interstitialFor;
  setInterstitialFor(null);
  if (adUrl) window.open(adUrl, "_blank", "noopener,noreferrer");
  safeSetSession(onceKey, "1");
  if (m?.url) window.open(m.url, "_blank", "noopener,noreferrer");\<close>\<close>

definition proceed_hardened :: handler where
  "proceed_hardened s =
     (let m = interstitialFor s in
      andThen (setInterstitialFor None)
        (andThen (if adUrl s \<noteq> [] then window_open (adUrl s) else skip)
           (andThen (safeSetSession onceKey ''1'')
              (case m of
                 None \<Rightarrow> skip
               | Some r \<Rightarrow> if url r \<noteq> [] then window_open (url r) else skip))) s)"

text \<open>The close button of the interstitial, line 272 (the hardened revision has none):
  \<^verbatim>\<open>onClick={() => setInterstitialFor(null)}\<close>\<close>

definition dismiss :: handler where
  "dismiss = setInterstitialFor None"

subsection \<open>Binary64 subtraction\<close>

text \<open>
  The touch handlers compute \<^verbatim>\<open>y - touchY.current\<close> on two finite binary64 numbers: the
  exact difference, rounded to the nearest binary64 number, ties to the even significand.

  \<open>binade x\<close> is the exponent of the binade of \<open>x\<close>: the largest \<open>e\<close> in
  \<open>-1022 .. 1023\<close> with \<open>2 ^ e \<le> |x|\<close>, and \<open>-1022\<close> below the normal range; the
  binary64 numbers of that binade are the multiples of \<open>2 ^ (e - 52)\<close>.
\<close>

fun binadeFrom :: "nat \<Rightarrow> int \<Rightarrow> real \<Rightarrow> int" where
  "binadeFrom 0 e x = e"
| "binadeFrom (Suc n) e x = (if 2 powi (e + 1) \<le> x then binadeFrom n (e + 1) x else e)"

definition binade :: "real \<Rightarrow> int" where
  "binade x = binadeFrom 2045 (- 1022) \<bar>x\<bar>"

definition roundHalfEven :: "real \<Rightarrow> int" where
  "roundHalfEven r =
     (let f = \<lfloor>r\<rfloor> in
      if r - of_int f < 1 / 2 then f
      else if r - of_int f > 1 / 2 then f + 1
      else if even f then f else f + 1)"

text \<open>Where binary64 overflows to an infinity (from \<open>2 ^ 1024\<close> on), \<open>round64\<close> is a real
  of the same sign that is at least as large; the handlers compare the difference only
  with 40 and 0, which an infinity and such a real answer alike.\<close>

definition round64 :: "real \<Rightarrow> real" where
  "round64 x = of_int (roundHalfEven (x / 2 powi (binade x - 52))) * 2 powi (binade x - 52)"

definition sub64 :: "real \<Rightarrow> real \<Rightarrow> real" where
  "sub64 a b = round64 (a - b)"

subsection \<open>The input dispatcher\<close>

definition setIndex :: "(int \<Rightarrow> int) \<Rightarrow> page \<Rightarrow> page" where
  "setIndex f s = s\<lparr>index := f (index s)\<rparr>"

definition setQuery :: "string \<Rightarrow> page \<Rightarrow> page" where
  "setQuery q s = s\<lparr>query := q\<rparr>"

text \<open>Lines 145-146 and 411-415; \<open>cl\<close> is the \<open>cycleLen\<close> that the handler's \<open>next\<close> and
  \<open>prev\<close> close over:
  \<^verbatim>\<open>if (wheelLock.current) return; wheelLock.current = true;
  setTimeout(() => (wheelLock.current = false), 400);
  if (e.deltaY > 10) next(); else if (e.deltaY < -10) prev();\<close>\<close>

definition onWheel :: "int \<Rightarrow> real \<Rightarrow> page \<Rightarrow> page" where
  "onWheel cl deltaY s =
     (if wheelLock s then s
      else
        let s1 = s\<lparr>wheelLock := True\<rparr> in
        if deltaY > 10 then setIndex (next' cl) s1
        else if deltaY < - 10 then setIndex (prev cl) s1
        else s1)"

text \<open>The timer that \<open>onWheel\<close> sets, when it fires.\<close>

definition wheelTimeout :: "page \<Rightarrow> page" where
  "wheelTimeout s = s\<lparr>wheelLock := False\<rparr>"

text \<open>Lines 148-151 (the hardened revision listens to no key):
  \<^verbatim>\<open>if (e.key === "ArrowDown") next(); if (e.key === "ArrowUp") prev();\<close>\<close>

definition onKey :: "int \<Rightarrow> string \<Rightarrow> page \<Rightarrow> page" where
  "onKey cl k s =
     (let s1 = (if k = ''ArrowDown'' then setIndex (next' cl) s else s) in
      if k = ''ArrowUp'' then setIndex (prev cl) s1 else s1)"

text \<open>Lines 159 and 423; the argument is \<^verbatim>\<open>e.touches?.[0]?.clientY ?? null\<close>.\<close>

definition onTouchStart :: "real option \<Rightarrow> page \<Rightarrow> page" where
  "onTouchStart y s = s\<lparr>touchY := y\<rparr>"

text \<open>Lines 160-163; the argument is \<^verbatim>\<open>e.changedTouches?.[0]?.clientY ?? null\<close>:
  \<^verbatim>\<open>if (touchY.current == null || y == null) return;
  const dy = y - touchY.current; if (Math.abs(dy) < 40) return;
  if (dy < 0) next(); else prev(); touchY.current = null;\<close>\<close>

definition onTouchEnd_modern :: "int \<Rightarrow> real option \<Rightarrow> page \<Rightarrow> page" where
  "onTouchEnd_modern cl y s =
     (case touchY s of
        None \<Rightarrow> s
      | Some y0 \<Rightarrow>
          (case y of
             None \<Rightarrow> s
           | Some y1 \<Rightarrow>
               let dy = sub64 y1 y0 in
               if \<bar>dy\<bar> < 40 then s
               else (if dy < 0 then setIndex (next' cl) s else setIndex (prev cl) s)\<lparr>touchY := None\<rparr>))"

text \<open>Lines 424-430:
  \<^verbatim>\<open>if (touchY.current == null || y == null) return;
  const dy = y - touchY.current;
  if (Math.abs(dy) > 40) { if (dy < 0) next(); else prev(); }
  touchY.current = null;\<close>\<close>

definition onTouchEnd_hardened :: "int \<Rightarrow> real option \<Rightarrow> page \<Rightarrow> page" where
  "onTouchEnd_hardened cl y s =
     (case touchY s of
        None \<Rightarrow> s
      | Some y0 \<Rightarrow>
          (case y of
             None \<Rightarrow> s
           | Some y1 \<Rightarrow>
               let dy = sub64 y1 y0 in
               (if \<bar>dy\<bar> > 40 then (if dy < 0 then setIndex (next' cl) s else setIndex (prev cl) s)
                else s)\<lparr>touchY := None\<rparr>))"

text \<open>The clamp effects as state transformers: they run after a render in which
  \<open>filtered\<close> or \<open>index\<close> changed.\<close>

definition clampEffect_modern :: "Model list \<Rightarrow> page \<Rightarrow> page" where
  "clampEffect_modern models s = setIndex (clampIndex_modern (filtered models (query s))) s"

definition clampEffect_hardened :: "Model list \<Rightarrow> page \<Rightarrow> page" where
  "clampEffect_hardened models s = setIndex (clampIndex_hardened (filtered models (query s))) s"

subsection \<open>The component as a transition system\<close>

text \<open>
  One step is one handler or effect of the component, for the directory \<open>models\<close>. The
  wheel, key and touch listeners are registered once, by effects with no dependencies, so
  the \<open>next\<close> and \<open>prev\<close> they call are those of the first render, where the query is
  empty; the buttons call those of the current render.
\<close>

definition mountCycleLen :: "Model list \<Rightarrow> int" where
  "mountCycleLen models = cycleLen (filtered models [])"

inductive step_modern :: "Model list \<Rightarrow> page \<Rightarrow> page \<Rightarrow> bool" for models :: "Model list" where
  sm_open: "step_modern models s (snd (openLink_modern m s))"
| sm_proceed: "step_modern models s (snd (proceed_modern s))"
| sm_dismiss: "step_modern models s (snd (dismiss s))"
| sm_next: "step_modern models s (setIndex (next' (cycleLen (filtered models (query s)))) s)"
| sm_prev: "step_modern models s (setIndex (prev (cycleLen (filtered models (query s)))) s)"
| sm_query: "step_modern models s (setQuery q s)"
| sm_clamp: "step_modern models s (clampEffect_modern models s)"
| sm_wheel: "step_modern models s (onWheel (mountCycleLen models) d s)"
| sm_timeout: "step_modern models s (wheelTimeout s)"
| sm_key: "step_modern models s (onKey (mountCycleLen models) k s)"
| sm_touchStart: "step_modern models s (onTouchStart y s)"
| sm_touchEnd: "step_modern models s (onTouchEnd_modern (mountCycleLen models) y s)"

text \<open>The hardened revision renders no search box, no arrow buttons and no close button,
  and listens to no key.\<close>

inductive step_hardened :: "Model list \<Rightarrow> page \<Rightarrow> page \<Rightarrow> bool" for models :: "Model list" where
  sh_open: "step_hardened models s (snd (openLink_hardened m s))"
| sh_proceed: "step_hardened models s (snd (proceed_hardened s))"
| sh_clamp: "step_hardened models s (clampEffect_hardened models s)"
| sh_wheel: "step_hardened models s (onWheel (mountCycleLen models) d s)"
| sh_timeout: "step_hardened models s (wheelTimeout s)"
| sh_touchStart: "step_hardened models s (onTouchStart y s)"
| sh_touchEnd: "step_hardened models s (onTouchEnd_hardened (mountCycleLen models) y s)"

text \<open>The state of a freshly mounted page in a browser whose calls do not throw.\<close>

definition freshPage :: page where
  "freshPage =
     \<lparr>window_defined = True, getItem_throws = False, setItem_throws = False,
      open_throws = (\<lambda>u. False), sessionStorage = Map.empty, open_calls = [],
      NEXT_PUBLIC_MONETAG_URL = None, index = 0, query = [], interstitialFor = None,
      wheelLock = False, touchY = None\<rparr>"

subsection \<open>Renders and their effect\<close>







subsection \<open>The filter, in the words of its specification\<close>

text \<open>\<open>t\<close> contains \<open>q\<close> as a case-insensitive substring: ignoring case, \<open>q\<close> is a
  contiguous part of \<open>t\<close>.\<close>

definition containsIgnoringCase :: "string \<Rightarrow> string \<Rightarrow> bool" where
  "containsIgnoringCase t q = sublist (toLowerCase q) (toLowerCase t)"

text \<open>A record matches a query when its name or at least one of its tags contains it.\<close>

definition matchesQuery :: "string \<Rightarrow> Model \<Rightarrow> bool" where
  "matchesQuery q m =
     (containsIgnoringCase (name m) q
      \<or> list_ex (\<lambda>t. containsIgnoringCase t q) (case tags m of Some ts \<Rightarrow> ts | None \<Rightarrow> []))"

section \<open>Properties\<close>

subsection \<open>The ring of cursors\<close>

lemma js_rem_nonneg: "0 \<le> a \<Longrightarrow> js_rem a b = a mod \<bar>b\<bar>"
  by (cases "a = 0") (simp_all add: js_rem_def)

lemma cycleLen_pos: "1 \<le> cycleLen fs"
  by (simp add: cycleLen_def)

lemma next'_mod: "0 \<le> i \<Longrightarrow> 1 \<le> cl \<Longrightarrow> next' cl i = (i + 1) mod cl"
  by (simp add: next'_def js_rem_nonneg)

lemma prev_mod: "0 \<le> i \<Longrightarrow> 1 \<le> cl \<Longrightarrow> prev cl i = (i - 1 + cl) mod cl"
  by (simp only: prev_def) (simp only: js_rem_nonneg abs_of_pos)

lemma next'_range: "0 \<le> i \<Longrightarrow> 1 \<le> cl \<Longrightarrow> 0 \<le> next' cl i \<and> next' cl i < cl"
  by (simp add: next'_mod)

lemma prev_range: "0 \<le> i \<Longrightarrow> 1 \<le> cl \<Longrightarrow> 0 \<le> prev cl i \<and> prev cl i < cl"
  by (simp add: prev_mod)

lemma next'_eq:
  assumes "0 \<le> i" and "i < cl"
  shows "next' cl i = (if i + 1 = cl then 0 else i + 1)"
proof -
  have cl: "1 \<le> cl" using assms by linarith
  have n: "next' cl i = (i + 1) mod cl" using assms cl by (simp add: next'_mod)
  show ?thesis
  proof (cases "i + 1 = cl")
    case True
    then show ?thesis using n by simp
  next
    case False
    then have "(i + 1) mod cl = i + 1" using assms by (intro mod_pos_pos_trivial) linarith+
    then show ?thesis using n False by simp
  qed
qed

lemma prev_eq:
  assumes "0 \<le> i" and "i < cl"
  shows "prev cl i = (if i = 0 then cl - 1 else i - 1)"
proof -
  have cl: "1 \<le> cl" using assms by linarith
  have p: "prev cl i = (i - 1 + cl) mod cl" using assms cl by (rule_tac prev_mod)
  show ?thesis
  proof (cases "i = 0")
    case True
    have "(cl - 1) mod cl = cl - 1" using cl by (intro mod_pos_pos_trivial) linarith+
    then show ?thesis using p True by simp
  next
    case False
    have "(i - 1 + cl) mod cl = (i - 1) mod cl" by simp
    also have "\<dots> = i - 1" using assms False by (intro mod_pos_pos_trivial) linarith+
    finally show ?thesis using p False by simp
  qed
qed

lemma prev_next':
  assumes "0 \<le> c" and "c < cl"
  shows "prev cl (next' cl c) = c"
proof (cases "c + 1 = cl")
  case True
  then have "next' cl c = 0" using assms by (simp add: next'_eq)
  moreover have "prev cl 0 = cl - 1" using assms by (subst prev_eq) simp_all
  ultimately show ?thesis using True by simp
next
  case False
  then have n: "next' cl c = c + 1" using assms by (simp add: next'_eq)
  have "prev cl (c + 1) = c" using assms False by (subst prev_eq) simp_all
  then show ?thesis using n by simp
qed

lemma next'_prev:
  assumes "0 \<le> c" and "c < cl"
  shows "next' cl (prev cl c) = c"
proof (cases "c = 0")
  case True
  then have "prev cl c = cl - 1" using assms by (simp add: prev_eq)
  moreover have "next' cl (cl - 1) = 0" using assms by (subst next'_eq) simp_all
  ultimately show ?thesis using True by simp
next
  case False
  then have p: "prev cl c = c - 1" using assms by (simp add: prev_eq)
  have "next' cl (c - 1) = c" using assms False by (subst next'_eq) simp_all
  then show ?thesis using p by simp
qed

lemma length_MODELS: "length MODELS = 3"
  by (simp add: MODELS_def RAW_MODELS_def)

text \<open>
  C6. For a visible sequence \<open>fs\<close> of length at least 1 and a cursor \<open>c\<close> with
  \<open>0 \<le> c < length fs\<close>: \<open>next\<close> then \<open>prev\<close> gives \<open>c\<close> back, and so does \<open>prev\<close> then
  \<open>next\<close>; on such cursors \<open>next\<close> is \<open>(c + 1) mod L\<close> and \<open>prev\<close> is
  \<open>(c - 1 + L) mod L\<close>, for \<open>L = length fs\<close>.
\<close>

theorem advance_retreat_inverse:
  assumes "1 \<le> length fs" and "0 \<le> c" and "c < int (length fs)"
  shows "prev (cycleLen fs) (next' (cycleLen fs) c) = c
       \<and> next' (cycleLen fs) (prev (cycleLen fs) c) = c
       \<and> next' (cycleLen fs) c = (c + 1) mod int (length fs)
       \<and> prev (cycleLen fs) c = (c - 1 + int (length fs)) mod int (length fs)"
proof -
  have L: "cycleLen fs = int (length fs)" using assms(1) by (simp add: cycleLen_def)
  have pos: "1 \<le> int (length fs)" using assms(1) by simp
  have a: "prev (int (length fs)) (next' (int (length fs)) c) = c"
    using assms(2,3) by (rule prev_next')
  have b: "next' (int (length fs)) (prev (int (length fs)) c) = c"
    using assms(2,3) by (rule next'_prev)
  have c: "next' (int (length fs)) c = (c + 1) mod int (length fs)"
    using assms(2) pos by (rule next'_mod)
  have d: "prev (int (length fs)) c = (c - 1 + int (length fs)) mod int (length fs)"
    using assms(2) pos by (rule prev_mod)
  show ?thesis unfolding L using a b c d by blast
qed

text \<open>On the page's own directory of three records, from the last card: \<open>next\<close> wraps to
  the first card and \<open>prev\<close> comes back.\<close>

theorem advance_retreat_inverse_witness:
  "1 \<le> length MODELS \<and> (0::int) \<le> 2 \<and> 2 < int (length MODELS)
   \<and> next' (cycleLen MODELS) 2 = 0 \<and> prev (cycleLen MODELS) 0 = 2
   \<and> prev (cycleLen MODELS) (next' (cycleLen MODELS) 2) = 2
   \<and> next' (cycleLen MODELS) (prev (cycleLen MODELS) 2) = 2"
proof -
  have h1: "1 \<le> length MODELS" and h3: "(2::int) < int (length MODELS)"
    by (simp_all add: length_MODELS)
  have h2: "(0::int) \<le> 2" by simp
  have cl: "cycleLen MODELS = 3" by (simp add: cycleLen_def length_MODELS)
  have n: "next' 3 2 = 0" "prev 3 0 = 2" by (simp_all add: next'_def prev_def js_rem_def)
  show ?thesis
    using advance_retreat_inverse [OF h1 h2 h3] h1 h2 h3 n unfolding cl by blast
qed

subsection \<open>The current record\<close>

lemma js_nth_cases:
  "(case js_nth xs i of
      None \<Rightarrow> i < 0 \<or> int (length xs) \<le> i
    | Some x \<Rightarrow> 0 \<le> i \<and> i < int (length xs) \<and> x = xs ! nat i \<and> x \<in> set xs)"
  by (auto simp: js_nth_def)

lemma orNull_id: "orNull x = x"
  by (cases x) (simp_all add: orNull_def)

lemma current_hardened_eq: "current_hardened fs i = js_nth fs i"
  by (simp add: current_hardened_def orNull_id)

lemma current_modern_eq: "current_modern fs i = js_nth fs i"
  by (cases fs) (simp_all add: current_modern_def orNull_id js_nth_def)

text \<open>
  C10. For every integer cursor \<open>i\<close> and every filtered sequence \<open>fs\<close>, the current
  record of either revision is \<open>None\<close> (exactly when \<open>i\<close> is outside \<open>0 .. length fs - 1\<close>)
  or the element of \<open>fs\<close> at position \<open>i\<close>; on the empty sequence it is \<open>None\<close> for
  every cursor, and the canvas then shows the empty state.
\<close>

theorem current_total:
  "(case current_modern fs i of
      None \<Rightarrow> i < 0 \<or> int (length fs) \<le> i
    | Some m \<Rightarrow> 0 \<le> i \<and> i < int (length fs) \<and> m = fs ! nat i \<and> m \<in> set fs)
   \<and> (case current_hardened fs i of
      None \<Rightarrow> i < 0 \<or> int (length fs) \<le> i
    | Some m \<Rightarrow> 0 \<le> i \<and> i < int (length fs) \<and> m = fs ! nat i \<and> m \<in> set fs)
   \<and> current_modern [] j = None \<and> current_hardened [] j = None
   \<and> canvas (current_modern [] j) = EmptyState \<and> canvas (current_hardened [] j) = EmptyState"
proof -
  have e: "current_modern [] j = None" "current_hardened [] j = None"
    by (simp_all add: current_modern_def current_hardened_def js_nth_def orNull_def)
  show ?thesis
    unfolding e using js_nth_cases [where xs = fs and i = i]
    by (simp add: current_modern_eq current_hardened_eq canvas_def)
qed

theorem current_total_witness:
  "current_modern MODELS 1 = Some (MODELS ! 1) \<and> current_hardened MODELS 1 = Some (MODELS ! 1)
   \<and> current_modern MODELS 3 = None \<and> current_hardened MODELS 3 = None
   \<and> current_modern MODELS (- 1) = None \<and> current_hardened MODELS (- 1) = None
   \<and> canvas (current_modern [] 0) = EmptyState \<and> canvas (current_hardened [] 0) = EmptyState"
proof -
  have a: "current_modern MODELS 1 = Some (MODELS ! 1)" "current_hardened MODELS 1 = Some (MODELS ! 1)"
    using current_total [where fs = MODELS and i = 1 and j = 0]
    by (auto simp: current_modern_eq current_hardened_eq js_nth_def length_MODELS)
  have b: "current_modern MODELS 3 = None" "current_hardened MODELS 3 = None"
    using current_total [where fs = MODELS and i = 3 and j = 0]
    by (auto simp: current_modern_eq current_hardened_eq js_nth_def length_MODELS)
  have c: "current_modern MODELS (- 1) = None" "current_hardened MODELS (- 1) = None"
    using current_total [where fs = MODELS and i = "- 1" and j = 0]
    by (auto simp: current_modern_eq current_hardened_eq js_nth_def length_MODELS)
  have d: "canvas (current_modern [] 0) = EmptyState" "canvas (current_hardened [] 0) = EmptyState"
    using current_total [where fs = MODELS and i = 1 and j = 0] by blast+
  show ?thesis using a b c d by blast
qed

subsection \<open>The clamp\<close>


lemma clampIndex_modern_range:
  "0 \<le> clampIndex_modern fs i \<and> clampIndex_modern fs i < cycleLen fs"
  by (auto simp: clampIndex_modern_def cycleLen_def)

lemma clampIndex_hardened_nonneg:
  "0 \<le> i \<Longrightarrow> clampIndex_hardened fs i = (if i < int (length fs) then i else 0)
     \<and> 0 \<le> clampIndex_hardened fs i \<and> clampIndex_hardened fs i < cycleLen fs"
  by (auto simp: clampIndex_hardened_def cycleLen_def)

lemma clampIndex_hardened_neg: "i < 0 \<Longrightarrow> clampIndex_hardened fs i = i"
  by (simp add: clampIndex_hardened_def)

lemma mountCycleLen_pos: "1 \<le> mountCycleLen models"
  by (simp add: mountCycleLen_def cycleLen_pos)

lemma onWheel_index_nonneg: "1 \<le> cl \<Longrightarrow> 0 \<le> index s \<Longrightarrow> 0 \<le> index (onWheel cl d s)"
  by (simp add: onWheel_def setIndex_def Let_def next'_range prev_range)

lemma onKey_index_nonneg: "1 \<le> cl \<Longrightarrow> 0 \<le> index s \<Longrightarrow> 0 \<le> index (onKey cl k s)"
  by (simp add: onKey_def setIndex_def Let_def next'_range prev_range)

lemma onTouchEnd_hardened_index_nonneg:
  "1 \<le> cl \<Longrightarrow> 0 \<le> index s \<Longrightarrow> 0 \<le> index (onTouchEnd_hardened cl y s)"
  by (simp add: onTouchEnd_hardened_def setIndex_def Let_def next'_range prev_range
      split: option.splits)

lemma onTouchEnd_modern_index_nonneg:
  "1 \<le> cl \<Longrightarrow> 0 \<le> index s \<Longrightarrow> 0 \<le> index (onTouchEnd_modern cl y s)"
  by (simp add: onTouchEnd_modern_def setIndex_def Let_def next'_range prev_range
      split: option.splits)

lemma index_window_open [simp]: "index (snd (window_open u s)) = index s"
  by (simp add: window_open_def)

subsection \<open>What the link handlers leave alone\<close>

lemmas handler_defs =
  andThen_def try_catch_def skip_def window_open_def setInterstitialFor_def
  safeSetSession_def sessionStorage_setItem_def safeGetSession_def sessionStorage_getItem_def

lemmas link_defs =
  openLink_modern_def openLink_hardened_def proceed_modern_def proceed_hardened_def dismiss_def

lemma index_links [simp]:
  "index (snd (openLink_modern m s)) = index s"
  "index (snd (openLink_hardened m s)) = index s"
  "index (snd (proceed_modern s)) = index s"
  "index (snd (proceed_hardened s)) = index s"
  "index (snd (dismiss s)) = index s"
  by (simp_all add: link_defs handler_defs Let_def split: option.splits completion.splits)

lemma env_links [simp]:
  "window_defined (snd (openLink_modern m s)) = window_defined s"
  "window_defined (snd (openLink_hardened m s)) = window_defined s"
  "window_defined (snd (proceed_modern s)) = window_defined s"
  "window_defined (snd (proceed_hardened s)) = window_defined s"
  "window_defined (snd (dismiss s)) = window_defined s"
  "getItem_throws (snd (openLink_modern m s)) = getItem_throws s"
  "getItem_throws (snd (openLink_hardened m s)) = getItem_throws s"
  "getItem_throws (snd (proceed_modern s)) = getItem_throws s"
  "getItem_throws (snd (proceed_hardened s)) = getItem_throws s"
  "getItem_throws (snd (dismiss s)) = getItem_throws s"
  by (simp_all add: link_defs handler_defs Let_def split: option.splits completion.splits)

lemma step_modern_index_nonneg:
  assumes "step_modern models s s'" and "0 \<le> index s"
  shows "0 \<le> index s'"
  using assms
proof (cases rule: step_modern.cases)
  case sm_next
  then show ?thesis using assms(2) by (simp add: setIndex_def next'_range cycleLen_pos)
next
  case sm_prev
  then show ?thesis using assms(2) by (simp add: setIndex_def prev_range cycleLen_pos)
next
  case sm_clamp
  then show ?thesis by (simp add: clampEffect_modern_def setIndex_def clampIndex_modern_range)
next
  case (sm_wheel d)
  then show ?thesis using assms(2) by (simp add: onWheel_index_nonneg mountCycleLen_pos)
next
  case (sm_key k)
  then show ?thesis using assms(2) by (simp add: onKey_index_nonneg mountCycleLen_pos)
next
  case (sm_touchEnd y)
  then show ?thesis using assms(2) by (simp add: onTouchEnd_modern_index_nonneg mountCycleLen_pos)
qed (use assms(2) in \<open>simp_all add: setQuery_def wheelTimeout_def onTouchStart_def\<close>)

lemma step_hardened_index_nonneg:
  assumes "step_hardened models s s'" and "0 \<le> index s"
  shows "0 \<le> index s'"
  using assms
proof (cases rule: step_hardened.cases)
  case sh_clamp
  then show ?thesis using assms(2)
    by (simp add: clampEffect_hardened_def setIndex_def clampIndex_hardened_nonneg)
next
  case (sh_wheel d)
  then show ?thesis using assms(2) by (simp add: onWheel_index_nonneg mountCycleLen_pos)
next
  case (sh_touchEnd y)
  then show ?thesis using assms(2) by (simp add: onTouchEnd_hardened_index_nonneg mountCycleLen_pos)
qed (use assms(2) in \<open>simp_all add: wheelTimeout_def onTouchStart_def\<close>)

lemma reach_modern_index_nonneg:
  "rtranclp (step_modern models) s s' \<Longrightarrow> 0 \<le> index s \<Longrightarrow> 0 \<le> index s'"
  by (induction rule: rtranclp_induct) (auto dest: step_modern_index_nonneg)

lemma reach_hardened_index_nonneg:
  "rtranclp (step_hardened models) s s' \<Longrightarrow> 0 \<le> index s \<Longrightarrow> 0 \<le> index s'"
  by (induction rule: rtranclp_induct) (auto dest: step_hardened_index_nonneg)

subsection \<open>The cursor after a render\<close>














lemma filtered_Nil_query: "filtered models [] = models"
  by (simp add: filtered_def trim_def toLowerCase_def)

lemma mountCycleLen_MODELS: "mountCycleLen MODELS = 3"
  by (simp add: mountCycleLen_def filtered_Nil_query cycleLen_def length_MODELS)

lemma freshPage_fields:
  "window_defined freshPage" "\<not> getItem_throws freshPage" "\<not> setItem_throws freshPage"
  "\<not> open_throws freshPage u" "sessionStorage freshPage = Map.empty" "open_calls freshPage = []"
  "interstitialFor freshPage = None" "index freshPage = 0" "query freshPage = []"
  "\<not> wheelLock freshPage" "touchY freshPage = None"
  by (simp_all add: freshPage_def)


subsection \<open>The session gate under storage failure\<close>

lemma safeGetSession_eq:
  "safeGetSession k s =
     Normal (if window_defined s \<and> \<not> getItem_throws s then sessionStorage s k else None)"
  by (simp add: safeGetSession_def sessionStorage_getItem_def)

lemma safeSetSession_eq:
  "safeSetSession k v s =
     (Normal (), if window_defined s \<and> \<not> setItem_throws s
                 then s\<lparr>sessionStorage := (sessionStorage s)(k \<mapsto> v)\<rparr> else s)"
  by (simp add: safeSetSession_def try_catch_def sessionStorage_setItem_def skip_def)

lemma shown_eq:
  "shown s = (window_defined s \<and> \<not> getItem_throws s \<and> sessionStorage s onceKey = Some ''1'')"
  by (auto simp: shown_def safeGetSession_eq)

text \<open>
  C8. The read \<open>safeGetSession\<close> never throws, and the write \<open>safeSetSession\<close> always
  completes normally. When \<open>window\<close> is not defined or the read of the store throws, the
  read yields \<open>null\<close>, so the gate reads as not shown; when \<open>window\<close> is not defined or
  the write to the store throws, the write leaves the state as it was. (Where the store
  works, the read yields the stored value and the write stores it.)
\<close>

theorem session_gate_total:
  "safeGetSession k s \<noteq> Throw
   \<and> fst (safeSetSession k v s) = Normal ()
   \<and> (\<not> window_defined r \<or> getItem_throws r \<longrightarrow> safeGetSession k r = Normal None \<and> \<not> shown r)
   \<and> (\<not> window_defined w \<or> setItem_throws w \<longrightarrow> snd (safeSetSession k v w) = w)
   \<and> (window_defined g \<and> \<not> getItem_throws g \<longrightarrow> safeGetSession k g = Normal (sessionStorage g k))
   \<and> (window_defined p \<and> \<not> setItem_throws p \<longrightarrow>
        snd (safeSetSession k v p) = p\<lparr>sessionStorage := (sessionStorage p)(k \<mapsto> v)\<rparr>)"
  by (simp add: safeGetSession_eq safeSetSession_eq shown_eq)

text \<open>A store that holds the flag but throws on reading reads as not shown; a store that
  throws on writing is left unchanged; on the fresh page a write is read back.\<close>

theorem session_gate_total_witness:
  "getItem_throws (freshPage\<lparr>getItem_throws := True, sessionStorage := [onceKey \<mapsto> ''1'']\<rparr>)
   \<and> safeGetSession onceKey (freshPage\<lparr>getItem_throws := True, sessionStorage := [onceKey \<mapsto> ''1'']\<rparr>)
       = Normal None
   \<and> \<not> shown (freshPage\<lparr>getItem_throws := True, sessionStorage := [onceKey \<mapsto> ''1'']\<rparr>)
   \<and> setItem_throws (freshPage\<lparr>setItem_throws := True\<rparr>)
   \<and> safeSetSession onceKey ''1'' (freshPage\<lparr>setItem_throws := True\<rparr>)
       = (Normal (), freshPage\<lparr>setItem_throws := True\<rparr>)
   \<and> window_defined freshPage \<and> \<not> getItem_throws freshPage \<and> \<not> setItem_throws freshPage
   \<and> safeGetSession onceKey freshPage = Normal None
   \<and> safeGetSession onceKey (snd (safeSetSession onceKey ''1'' freshPage)) = Normal (Some ''1'')"
proof -
  let ?r = "freshPage\<lparr>getItem_throws := True, sessionStorage := [onceKey \<mapsto> ''1'']\<rparr>"
  let ?w = "freshPage\<lparr>setItem_throws := True\<rparr>"
  note t = session_gate_total [where k = onceKey and v = "''1''" and s = ?w and r = ?r and w = ?w
      and g = freshPage and p = freshPage]
  have f: "window_defined freshPage" "\<not> getItem_throws freshPage" "\<not> setItem_throws freshPage"
    "sessionStorage freshPage onceKey = None"
    by (simp_all add: freshPage_def)
  have r: "getItem_throws ?r" and w: "setItem_throws ?w" by simp_all
  have a: "safeGetSession onceKey ?r = Normal None" "\<not> shown ?r" using t r by blast+
  have b: "snd (safeSetSession onceKey ''1'' ?w) = ?w" using t w by blast
  have b': "fst (safeSetSession onceKey ''1'' ?w) = Normal ()" using t by blast
  have c: "safeSetSession onceKey ''1'' ?w = (Normal (), ?w)"
    using b b' by (simp add: prod_eq_iff)
  have d: "safeGetSession onceKey freshPage = Normal None" using t f by simp
  have e: "safeGetSession onceKey (snd (safeSetSession onceKey ''1'' freshPage)) = Normal (Some ''1'')"
    using t f by (simp add: safeGetSession_eq)
  show ?thesis using a c d e f r w by blast
qed

subsection \<open>Binary64 subtraction on concrete coordinates\<close>

lemma binadeFrom_eq:
  assumes "e0 \<le> e" and "e - e0 \<le> int n" and "2 powi e \<le> x" and "x < 2 powi (e + 1)"
  shows "binadeFrom n e0 x = e"
  using assms
proof (induction n arbitrary: e0)
  case 0
  then show ?case by simp
next
  case (Suc n)
  show ?case
  proof (cases "e0 = e")
    case True
    then show ?thesis using Suc.prems by simp
  next
    case False
    then have lt: "e0 + 1 \<le> e" using Suc.prems by simp
    have "(2::real) powi (e0 + 1) \<le> 2 powi e"
      using lt by (intro power_int_increasing) simp_all
    then have "2 powi (e0 + 1) \<le> x" using Suc.prems by linarith
    moreover have "binadeFrom n (e0 + 1) x = e"
      using lt Suc.prems by (intro Suc.IH) simp_all
    ultimately show ?thesis by simp
  qed
qed

lemma binade_eq:
  assumes "- 1022 \<le> e" and "e \<le> 1023" and "2 powi e \<le> \<bar>x\<bar>" and "\<bar>x\<bar> < 2 powi (e + 1)"
  shows "binade x = e"
  unfolding binade_def using assms by (intro binadeFrom_eq) simp_all

lemma roundHalfEven_of_int: "roundHalfEven (of_int k) = k"
  by (simp add: roundHalfEven_def)

text \<open>A number that is a multiple of the spacing of its binade is not changed.\<close>

lemma round64_exact:
  assumes "binade x = e" and "x / 2 powi (e - 52) = of_int k"
  shows "round64 x = x"
proof -
  have "round64 x = of_int k * 2 powi (e - 52)"
    using assms by (simp add: round64_def roundHalfEven_of_int)
  also have "\<dots> = x" using assms(2) by (simp add: field_simps)
  finally show ?thesis .
qed

lemma sub64_200_300: "sub64 200 300 = - 100"
proof -
  have b: "binade (- 100) = 6" by (rule binade_eq) simp_all
  have "round64 (- 100) = - 100"
    by (rule round64_exact [OF b, where k = "- 100 * 2 ^ 46"]) (simp add: power_int_minus)
  then show ?thesis by (simp add: sub64_def)
qed

lemma sub64_60_100: "sub64 60 100 = - 40"
proof -
  have b: "binade (- 40) = 5" by (rule binade_eq) simp_all
  have "round64 (- 40) = - 40"
    by (rule round64_exact [OF b, where k = "- 40 * 2 ^ 47"]) (simp add: power_int_minus)
  then show ?thesis by (simp add: sub64_def)
qed

lemma sub64_90_100: "sub64 90 100 = - 10"
proof -
  have b: "binade (- 10) = 3" by (rule binade_eq) simp_all
  have "round64 (- 10) = - 10"
    by (rule round64_exact [OF b, where k = "- 10 * 2 ^ 49"]) (simp add: power_int_minus)
  then show ?thesis by (simp add: sub64_def)
qed

text \<open>The binary64 numbers nearest to 0.3 and 40.3 differ by a little less than 40, those
  nearest to 0.1 and 40.1 by a little more; both differences round to 40.\<close>

lemma sub64_below_40:
  "2835860390359859 / 2 ^ 46 - 5404319552844595 / 2 ^ 54 < (40::real)
   \<and> sub64 (2835860390359859 / 2 ^ 46) (5404319552844595 / 2 ^ 54) = 40"
proof -
  let ?d = "720575940379279309 / 2 ^ 54 :: real"
  have d: "2835860390359859 / 2 ^ 46 - 5404319552844595 / 2 ^ 54 = ?d" by simp
  have b: "binade ?d = 5" by (rule binade_eq) simp_all
  have q: "?d / 2 powi (5 - 52) = 720575940379279309 / 128" by (simp add: power_int_minus)
  have r: "roundHalfEven (720575940379279309 / 128) = 5629499534213120"
    by (simp add: roundHalfEven_def)
  have "sub64 (2835860390359859 / 2 ^ 46) (5404319552844595 / 2 ^ 54) = 40"
    unfolding sub64_def d round64_def b q r by (simp add: power_int_minus)
  moreover have "?d < 40" by simp
  ultimately show ?thesis unfolding d by blast
qed

lemma sub64_above_40:
  "(40::real) < 5643573283048653 / 2 ^ 47 - 3602879701896397 / 2 ^ 55
   \<and> sub64 (5643573283048653 / 2 ^ 47) (3602879701896397 / 2 ^ 55) = 40"
proof -
  let ?d = "1441151880758558771 / 2 ^ 55 :: real"
  have d: "5643573283048653 / 2 ^ 47 - 3602879701896397 / 2 ^ 55 = ?d" by simp
  have b: "binade ?d = 5" by (rule binade_eq) simp_all
  have q: "?d / 2 powi (5 - 52) = 1441151880758558771 / 256" by (simp add: power_int_minus)
  have r: "roundHalfEven (1441151880758558771 / 256) = 5629499534213120"
    by (simp add: roundHalfEven_def)
  have "sub64 (5643573283048653 / 2 ^ 47) (3602879701896397 / 2 ^ 55) = 40"
    unfolding sub64_def d round64_def b q r by (simp add: power_int_minus)
  moreover have "40 < ?d" by simp
  ultimately show ?thesis unfolding d by blast
qed

subsection \<open>Touch gestures\<close>

text \<open>
  C9 (as amended). Touch-start records the vertical coordinate. At a touch-end where both
  coordinates are present, with \<open>dy\<close> the difference \<open>ye - ys\<close> as binary64 computes it:
  the hardened revision calls \<open>next\<close> (for \<open>dy < 0\<close>) or \<open>prev\<close> (otherwise) only when
  \<open>|dy| > 40\<close>, and clears the recorded coordinate whatever \<open>dy\<close> is; the modern revision
  calls them when \<open>|dy| \<ge> 40\<close>, clears the recorded coordinate only then, and changes
  nothing when \<open>|dy| < 40\<close>. In both revisions a touch-end with no recorded or no
  reported coordinate changes nothing.
\<close>

theorem touch_swipe:
  "touchY (onTouchStart y s) = y
   \<and> (touchY t = Some ys \<longrightarrow>
        onTouchEnd_hardened cl (Some ye) t =
          t\<lparr>index := (if \<bar>sub64 ye ys\<bar> > 40
                       then (if sub64 ye ys < 0 then next' cl (index t) else prev cl (index t))
                       else index t),
            touchY := None\<rparr>
        \<and> onTouchEnd_modern cl (Some ye) t =
          t\<lparr>index := (if \<bar>sub64 ye ys\<bar> \<ge> 40
                       then (if sub64 ye ys < 0 then next' cl (index t) else prev cl (index t))
                       else index t),
            touchY := (if \<bar>sub64 ye ys\<bar> \<ge> 40 then None else Some ys)\<rparr>)
   \<and> (touchY u = None \<or> z = None \<longrightarrow>
        onTouchEnd_hardened cl z u = u \<and> onTouchEnd_modern cl z u = u)"
  by (auto simp: onTouchStart_def onTouchEnd_hardened_def onTouchEnd_modern_def setIndex_def
      Let_def split: option.splits)

text \<open>An upward swipe of 100 units from the first card moves to the second card in both
  revisions and clears the recorded coordinate.\<close>

theorem touch_swipe_witness:
  "touchY (onTouchStart (Some 300) freshPage) = Some 300
   \<and> index (onTouchStart (Some 300) freshPage) = 0
   \<and> sub64 200 300 = - 100
   \<and> index (onTouchEnd_hardened (mountCycleLen MODELS) (Some 200) (onTouchStart (Some 300) freshPage)) = 1
   \<and> touchY (onTouchEnd_hardened (mountCycleLen MODELS) (Some 200) (onTouchStart (Some 300) freshPage)) = None
   \<and> index (onTouchEnd_modern (mountCycleLen MODELS) (Some 200) (onTouchStart (Some 300) freshPage)) = 1
   \<and> touchY (onTouchEnd_modern (mountCycleLen MODELS) (Some 200) (onTouchStart (Some 300) freshPage)) = None
   \<and> touchY freshPage = None
   \<and> onTouchEnd_hardened (mountCycleLen MODELS) (Some 5) freshPage = freshPage
   \<and> onTouchEnd_modern (mountCycleLen MODELS) (Some 5) freshPage = freshPage"
proof -
  let ?t = "onTouchStart (Some 300) freshPage"
  note w = touch_swipe [where y = "Some 300" and s = freshPage and t = ?t and ys = 300
      and ye = 200 and cl = "mountCycleLen MODELS" and u = freshPage and z = "Some 5"]
  have n: "next' 3 0 = 1" by (simp add: next'_def js_rem_def)
  have a: "touchY ?t = Some 300" using w by blast
  have i: "index ?t = 0" by (simp add: onTouchStart_def freshPage_def)
  have f: "touchY freshPage = None" by (simp add: freshPage_def)
  have h: "onTouchEnd_hardened (mountCycleLen MODELS) (Some 200) ?t = ?t\<lparr>index := 1, touchY := None\<rparr>"
    using w a by (simp add: mountCycleLen_MODELS n i sub64_200_300)
  have m: "onTouchEnd_modern (mountCycleLen MODELS) (Some 200) ?t = ?t\<lparr>index := 1, touchY := None\<rparr>"
    using w a by (simp add: mountCycleLen_MODELS n i sub64_200_300)
  have u: "onTouchEnd_hardened (mountCycleLen MODELS) (Some 5) freshPage = freshPage"
    "onTouchEnd_modern (mountCycleLen MODELS) (Some 5) freshPage = freshPage"
    using w f by blast+
  show ?thesis unfolding h m using a i f u sub64_200_300 by simp
qed

text \<open>C9 as stated fails on the modern revision: a swipe from 100 to 60, whose difference
  is exactly \<open>-40\<close> and so does not exceed 40, moves the cursor; and after a swipe from 100
  to 90 the recorded coordinate is still there.\<close>

theorem touch_threshold_counterexample:
  "sub64 60 100 = - 40
   \<and> \<not> (\<bar>sub64 60 100\<bar> > 40)
   \<and> index (onTouchStart (Some 100) freshPage) = 0
   \<and> index (onTouchEnd_modern (mountCycleLen MODELS) (Some 60) (onTouchStart (Some 100) freshPage)) = 1
   \<and> touchY (onTouchEnd_modern (mountCycleLen MODELS) (Some 90) (onTouchStart (Some 100) freshPage))
       = Some 100"
  by (simp add: onTouchEnd_modern_def onTouchStart_def freshPage_def setIndex_def
      mountCycleLen_MODELS next'_def js_rem_def sub64_60_100 sub64_90_100)

text \<open>At the threshold the rounding of the subtraction decides. From the binary64 number
  nearest to 0.3 to the one nearest to 40.3 the computed difference is 40, so the modern
  revision calls \<open>prev\<close> and clears the recorded coordinate; from the one nearest to 0.1
  to the one nearest to 40.1 it is 40 as well, so the hardened revision leaves the
  cursor.\<close>

lemma touch_rounding_at_threshold:
  "onTouchEnd_modern (mountCycleLen MODELS) (Some (2835860390359859 / 2 ^ 46))
      (onTouchStart (Some (5404319552844595 / 2 ^ 54)) freshPage)
     = freshPage\<lparr>index := 2\<rparr>
   \<and> onTouchEnd_hardened (mountCycleLen MODELS) (Some (5643573283048653 / 2 ^ 47))
      (onTouchStart (Some (3602879701896397 / 2 ^ 55)) freshPage)
     = freshPage"
proof -
  have p: "prev 3 0 = 2" by (simp add: prev_def js_rem_def)
  have a: "sub64 (2835860390359859 / 2 ^ 46) (5404319552844595 / 2 ^ 54) = 40"
    using sub64_below_40 by blast
  have b: "sub64 (5643573283048653 / 2 ^ 47) (3602879701896397 / 2 ^ 55) = 40"
    using sub64_above_40 by blast
  have m: "onTouchEnd_modern (mountCycleLen MODELS) (Some (2835860390359859 / 2 ^ 46))
      (onTouchStart (Some (5404319552844595 / 2 ^ 54)) freshPage) = freshPage\<lparr>index := 2\<rparr>"
    using a by (simp add: onTouchEnd_modern_def onTouchStart_def Let_def setIndex_def
        mountCycleLen_MODELS p freshPage_def)
  have h: "onTouchEnd_hardened (mountCycleLen MODELS) (Some (5643573283048653 / 2 ^ 47))
      (onTouchStart (Some (3602879701896397 / 2 ^ 55)) freshPage) = freshPage"
    using b by (simp add: onTouchEnd_hardened_def onTouchStart_def Let_def freshPage_def)
  show ?thesis using m h by blast
qed

subsection \<open>The filter\<close>

lemma str_includes_sublist: "str_includes t q = sublist q t"
  by (induction t) (simp_all add: sublist_Cons_right)

lemma toLowerCase_Nil_iff: "(toLowerCase s = []) = (s = [])"
  by (simp add: toLowerCase_def)

lemma someIncludes_matchesQuery: "someIncludes (toLowerCase q) m = matchesQuery q m"
  by (simp add: someIncludes_def matchesQuery_def nameAndTags_def containsIgnoringCase_def
      str_includes_sublist)

lemma trim_Nil_iff: "(trim s = []) = (\<forall>c \<in> set s. isWhiteSpace c)"
proof
  assume "trim s = []"
  then have "\<forall>c \<in> set (dropWhile isWhiteSpace s). isWhiteSpace c"
    by (simp add: trim_def dropWhile_eq_Nil_conv)
  then have "dropWhile isWhiteSpace s = []"
    by (metis hd_dropWhile hd_in_set)
  then show "\<forall>c \<in> set s. isWhiteSpace c"
    by (simp add: dropWhile_eq_Nil_conv)
next
  assume "\<forall>c \<in> set s. isWhiteSpace c"
  then have d: "dropWhile isWhiteSpace s = []" by (simp add: dropWhile_eq_Nil_conv)
  show "trim s = []" unfolding trim_def d by simp
qed

lemma filtered_eq:
  "filtered models qry =
     (if trim qry = [] then models
      else if filter (matchesQuery (trim qry)) models = [] then models
      else filter (matchesQuery (trim qry)) models)"
proof -
  have "someIncludes (toLowerCase (trim qry)) = matchesQuery (trim qry)"
    by (rule ext) (rule someIncludes_matchesQuery)
  then show ?thesis
    by (simp add: filtered_def Let_def toLowerCase_Nil_iff)
qed

text \<open>
  C4 (as amended). For a query whose trimmed form \<open>q\<close> is not empty and that at least one
  record matches, \<open>filtered\<close> is exactly the records whose name or some tag contains \<open>q\<close>
  as a case-insensitive substring, in the directory's order; when no record matches it is
  the whole directory. For an empty or whitespace-only query it is the directory. It is
  always a subsequence of the directory.
\<close>

theorem filtered_matches:
  "(trim qry \<noteq> [] \<and> filter (matchesQuery (trim qry)) models \<noteq> [] \<longrightarrow>
      filtered models qry = filter (matchesQuery (trim qry)) models)
   \<and> (trim qry \<noteq> [] \<and> filter (matchesQuery (trim qry)) models = [] \<longrightarrow>
      filtered models qry = models)
   \<and> ((\<forall>c \<in> set blank. isWhiteSpace c) \<longrightarrow> trim blank = [] \<and> filtered models blank = models)
   \<and> subseq (filtered models qry) models"
proof -
  have a: "(\<forall>c \<in> set blank. isWhiteSpace c) \<longrightarrow> trim blank = [] \<and> filtered models blank = models"
    by (simp add: filtered_eq trim_Nil_iff)
  have b: "subseq (filtered models qry) models"
    by (simp add: filtered_eq)
  show ?thesis using a b by (simp add: filtered_eq)
qed

text \<open>
  C5. When no record matches the trimmed query, \<open>filtered\<close> is the whole directory; hence
  \<open>filtered\<close> is empty only when the directory is.
\<close>

theorem filtered_fallback:
  "(filter (matchesQuery (trim qry)) models = [] \<longrightarrow> filtered models qry = models)
   \<and> ((filtered models qry = []) = (models = []))"
  by (auto simp: filtered_eq)

lemma trim_Bio: "trim ''  Bio '' = ''Bio''"
  by code_simp

lemma trim_zzz: "trim ''zzz'' = ''zzz''"
  by code_simp

lemma matches_Bio: "filter (matchesQuery ''Bio'') MODELS = [MODELS ! 0, MODELS ! 1]"
  by code_simp

lemma matches_zzz: "filter (matchesQuery ''zzz'') MODELS = []"
  by code_simp

lemma names_MODELS: "map name MODELS = [''Charvi Bhatt'', ''Arushi Chatterjee'', ''Your Creator 3'']"
  by (simp add: MODELS_def RAW_MODELS_def normalize_def)

text \<open>On the page's directory: "  Bio " keeps the first two records, in order; "zzz"
  matches nothing and gives the whole directory; so does a query of three spaces.\<close>

theorem filtered_matches_witness:
  "trim ''  Bio '' \<noteq> [] \<and> filter (matchesQuery (trim ''  Bio '')) MODELS \<noteq> []
   \<and> filtered MODELS ''  Bio '' = [MODELS ! 0, MODELS ! 1]
   \<and> map name (filtered MODELS ''  Bio '') = [''Charvi Bhatt'', ''Arushi Chatterjee'']
   \<and> trim ''zzz'' \<noteq> [] \<and> filter (matchesQuery (trim ''zzz'')) MODELS = []
   \<and> filtered MODELS ''zzz'' = MODELS
   \<and> filtered MODELS ''   '' = MODELS
   \<and> subseq (filtered MODELS ''  Bio '') MODELS"
proof -
  note w1 = filtered_matches [where qry = "''  Bio ''" and models = MODELS and blank = "''   ''"]
  note w2 = filtered_matches [where qry = "''zzz''" and models = MODELS and blank = "[]"]
  have h1: "trim ''  Bio '' \<noteq> []" "filter (matchesQuery (trim ''  Bio '')) MODELS \<noteq> []"
    by (simp_all add: trim_Bio matches_Bio)
  have h2: "trim ''zzz'' \<noteq> []" "filter (matchesQuery (trim ''zzz'')) MODELS = []"
    by (simp_all add: trim_zzz matches_zzz)
  have h3: "\<forall>c \<in> set ''   ''. isWhiteSpace c" by (simp add: isWhiteSpace_def)
  have a: "filtered MODELS ''  Bio '' = [MODELS ! 0, MODELS ! 1]"
    using w1 h1 by (simp add: trim_Bio matches_Bio)
  have n: "map name [MODELS ! 0, MODELS ! 1] = [''Charvi Bhatt'', ''Arushi Chatterjee'']"
    by (simp add: MODELS_def RAW_MODELS_def normalize_def)
  have b: "filtered MODELS ''zzz'' = MODELS" using w2 h2 by blast
  have c: "filtered MODELS ''   '' = MODELS" using w1 h3 by blast
  have d: "subseq (filtered MODELS ''  Bio '') MODELS" using w1 by blast
  show ?thesis using h1 h2 a b c d n by simp
qed

text \<open>C4 as stated fails where nothing matches: for "zzz" the result is the whole
  directory, not the (empty) list of matching records.\<close>

theorem filtered_matches_counterexample:
  "trim ''zzz'' \<noteq> []
   \<and> filter (matchesQuery (trim ''zzz'')) MODELS = []
   \<and> filtered MODELS ''zzz'' = MODELS
   \<and> filtered MODELS ''zzz'' \<noteq> filter (matchesQuery (trim ''zzz'')) MODELS"
proof -
  have m: "MODELS \<noteq> []" using length_MODELS by auto
  show ?thesis using m by (simp add: filtered_eq trim_zzz matches_zzz)
qed

text \<open>"new york" matches no record of the page's directory (the tag "new" does not
  contain it), and all three records stay visible.\<close>

theorem filtered_fallback_witness:
  "filter (matchesQuery (trim ''new york'')) MODELS = []
   \<and> filtered MODELS ''new york'' = MODELS
   \<and> filtered MODELS ''new york'' \<noteq> []"
proof -
  have t: "trim ''new york'' = ''new york''" by code_simp
  have f: "filter (matchesQuery ''new york'') MODELS = []" by code_simp
  have h: "filter (matchesQuery (trim ''new york'')) MODELS = []" by (simp add: t f)
  have m: "MODELS \<noteq> []" using length_MODELS by auto
  show ?thesis
    using filtered_fallback [where qry = "''new york''" and models = MODELS] h m by simp
qed

subsection \<open>The link dispatcher\<close>

lemma adUrl_nonempty: "adUrl s \<noteq> []"
  by (simp add: adUrl_def split: option.splits)

lemma window_open_eq:
  "window_defined s \<Longrightarrow>
   window_open u s = (if open_throws s u then Throw else Normal (), s\<lparr>open_calls := open_calls s @ [u]\<rparr>)"
  by (simp add: window_open_def)

lemma openLink_modern_eq:
  "openLink_modern m s =
     (case m of
        None \<Rightarrow> (Normal (), s)
      | Some r \<Rightarrow>
          if url r = [] then (Normal (), s)
          else if \<not> shown s then (Normal (), s\<lparr>interstitialFor := Some r\<rparr>)
          else (Normal (), s\<lparr>open_calls := open_calls s @ [url r]\<rparr>))"
  by (auto simp: openLink_modern_def shown_eq safeGetSession_eq adUrl_nonempty
      setInterstitialFor_def try_catch_def window_open_def split: option.splits)

lemma openLink_hardened_eq:
  "openLink_hardened m s =
     (case m of
        None \<Rightarrow> (Normal (), s)
      | Some r \<Rightarrow>
          if url r = [] then (Normal (), s)
          else if \<not> shown s then (Normal (), s\<lparr>interstitialFor := Some r\<rparr>)
          else (if open_throws s (url r) then Throw else Normal (),
                s\<lparr>open_calls := open_calls s @ [url r]\<rparr>))"
  by (auto simp: openLink_hardened_def shown_eq safeGetSession_eq adUrl_nonempty
      setInterstitialFor_def window_open_def split: option.splits)

text \<open>The state after the two calls and the write of \<open>proceed\<close>, for a pending record
  \<open>r\<close>, where \<open>window\<close> is defined.\<close>

lemma proceed_modern_pending:
  assumes "interstitialFor s = Some r" and "url r \<noteq> []" and "window_defined s"
  shows "proceed_modern s =
     (Normal (),
      s\<lparr>interstitialFor := None,
        open_calls := open_calls s @ [adUrl s, url r],
        sessionStorage :=
          (if setItem_throws s then sessionStorage s else (sessionStorage s)(onceKey \<mapsto> ''1''))\<rparr>)"
  using assms
  by (simp add: proceed_modern_def Let_def andThen_def try_catch_def window_open_def
      setInterstitialFor_def safeSetSession_eq adUrl_nonempty)

lemma proceed_modern_absent:
  assumes "case interstitialFor s of None \<Rightarrow> True | Some r \<Rightarrow> url r = []"
  shows "proceed_modern s = (Normal (), s\<lparr>interstitialFor := None\<rparr>)"
  using assms
  by (simp add: proceed_modern_def Let_def andThen_def skip_def setInterstitialFor_def
      split: option.splits)

lemma proceed_hardened_pending:
  assumes "interstitialFor s = Some r" and "url r \<noteq> []" and "window_defined s"
    and "\<not> open_throws s (adUrl s)"
  shows "proceed_hardened s =
     (if open_throws s (url r) then Throw else Normal (),
      s\<lparr>interstitialFor := None,
        open_calls := open_calls s @ [adUrl s, url r],
        sessionStorage :=
          (if setItem_throws s then sessionStorage s else (sessionStorage s)(onceKey \<mapsto> ''1''))\<rparr>)"
  using assms
  by (simp add: proceed_hardened_def Let_def andThen_def window_open_def
      setInterstitialFor_def safeSetSession_eq adUrl_nonempty)

lemma proceed_hardened_absent:
  assumes "case interstitialFor s of None \<Rightarrow> True | Some r \<Rightarrow> url r = []"
    and "window_defined s" and "\<not> open_throws s (adUrl s)"
  shows "proceed_hardened s =
     (Normal (),
      s\<lparr>interstitialFor := None,
        open_calls := open_calls s @ [adUrl s],
        sessionStorage :=
          (if setItem_throws s then sessionStorage s else (sessionStorage s)(onceKey \<mapsto> ''1''))\<rparr>)"
  using assms
  by (cases "interstitialFor s")
    (simp_all add: proceed_hardened_def Let_def andThen_def window_open_def skip_def
      setInterstitialFor_def safeSetSession_eq adUrl_nonempty)

lemma proceed_hardened_sponsor_throws:
  assumes "window_defined s" and "open_throws s (adUrl s)"
  shows "proceed_hardened s =
     (Throw, s\<lparr>interstitialFor := None, open_calls := open_calls s @ [adUrl s]\<rparr>)"
  using assms
  by (simp add: proceed_hardened_def Let_def andThen_def window_open_def
      setInterstitialFor_def adUrl_nonempty)

lemma proceed_hardened_no_window:
  assumes "\<not> window_defined s"
  shows "proceed_hardened s = (Throw, s\<lparr>interstitialFor := None\<rparr>)"
  using assms
  by (simp add: proceed_hardened_def Let_def andThen_def window_open_def
      setInterstitialFor_def adUrl_nonempty)

lemma proceed_modern_no_window:
  assumes "\<not> window_defined s"
  shows "proceed_modern s = (Normal (), s\<lparr>interstitialFor := None\<rparr>)"
  using assms
  by (simp add: proceed_modern_def Let_def andThen_def window_open_def try_catch_def skip_def
      setInterstitialFor_def safeSetSession_eq adUrl_nonempty split: option.splits)

subsection \<open>The gate flag along the steps of the component\<close>

lemma gate_links:
  "sessionStorage s onceKey = Some ''1'' \<Longrightarrow>
     sessionStorage (snd (openLink_modern m s)) onceKey = Some ''1''"
  "sessionStorage s onceKey = Some ''1'' \<Longrightarrow>
     sessionStorage (snd (openLink_hardened m s)) onceKey = Some ''1''"
  "sessionStorage s onceKey = Some ''1'' \<Longrightarrow>
     sessionStorage (snd (proceed_modern s)) onceKey = Some ''1''"
  "sessionStorage s onceKey = Some ''1'' \<Longrightarrow>
     sessionStorage (snd (proceed_hardened s)) onceKey = Some ''1''"
  "sessionStorage s onceKey = Some ''1'' \<Longrightarrow>
     sessionStorage (snd (dismiss s)) onceKey = Some ''1''"
  by (simp_all add: link_defs handler_defs Let_def split: option.splits completion.splits)

lemma input_frame:
  "window_defined (setIndex f s) = window_defined s"
  "getItem_throws (setIndex f s) = getItem_throws s"
  "sessionStorage (setIndex f s) = sessionStorage s"
  "window_defined (setQuery q s) = window_defined s"
  "getItem_throws (setQuery q s) = getItem_throws s"
  "sessionStorage (setQuery q s) = sessionStorage s"
  "window_defined (onWheel cl d s) = window_defined s"
  "getItem_throws (onWheel cl d s) = getItem_throws s"
  "sessionStorage (onWheel cl d s) = sessionStorage s"
  "window_defined (wheelTimeout s) = window_defined s"
  "getItem_throws (wheelTimeout s) = getItem_throws s"
  "sessionStorage (wheelTimeout s) = sessionStorage s"
  "window_defined (onKey cl k s) = window_defined s"
  "getItem_throws (onKey cl k s) = getItem_throws s"
  "sessionStorage (onKey cl k s) = sessionStorage s"
  "window_defined (onTouchStart y s) = window_defined s"
  "getItem_throws (onTouchStart y s) = getItem_throws s"
  "sessionStorage (onTouchStart y s) = sessionStorage s"
  "window_defined (onTouchEnd_modern cl y s) = window_defined s"
  "getItem_throws (onTouchEnd_modern cl y s) = getItem_throws s"
  "sessionStorage (onTouchEnd_modern cl y s) = sessionStorage s"
  "window_defined (onTouchEnd_hardened cl y s) = window_defined s"
  "getItem_throws (onTouchEnd_hardened cl y s) = getItem_throws s"
  "sessionStorage (onTouchEnd_hardened cl y s) = sessionStorage s"
  "window_defined (clampEffect_modern models s) = window_defined s"
  "getItem_throws (clampEffect_modern models s) = getItem_throws s"
  "sessionStorage (clampEffect_modern models s) = sessionStorage s"
  "window_defined (clampEffect_hardened models s) = window_defined s"
  "getItem_throws (clampEffect_hardened models s) = getItem_throws s"
  "sessionStorage (clampEffect_hardened models s) = sessionStorage s"
  by (simp_all add: setIndex_def setQuery_def onWheel_def wheelTimeout_def onKey_def
      onTouchStart_def onTouchEnd_modern_def onTouchEnd_hardened_def clampEffect_modern_def
      clampEffect_hardened_def Let_def split: option.splits)

lemma step_modern_gate:
  assumes "step_modern models s s'"
  shows "window_defined s' = window_defined s \<and> getItem_throws s' = getItem_throws s
    \<and> (sessionStorage s onceKey = Some ''1'' \<longrightarrow> sessionStorage s' onceKey = Some ''1'')"
  using assms by (cases rule: step_modern.cases) (simp_all add: gate_links input_frame)

lemma step_hardened_gate:
  assumes "step_hardened models s s'"
  shows "window_defined s' = window_defined s \<and> getItem_throws s' = getItem_throws s
    \<and> (sessionStorage s onceKey = Some ''1'' \<longrightarrow> sessionStorage s' onceKey = Some ''1'')"
  using assms by (cases rule: step_hardened.cases) (simp_all add: gate_links input_frame)

lemma reach_modern_gate:
  assumes "rtranclp (step_modern models) s s'"
  shows "window_defined s' = window_defined s \<and> getItem_throws s' = getItem_throws s
    \<and> (sessionStorage s onceKey = Some ''1'' \<longrightarrow> sessionStorage s' onceKey = Some ''1'')"
  using assms
proof (induction rule: rtranclp_induct)
  case base
  show ?case by simp
next
  case (step y z)
  then show ?case using step_modern_gate [of models y z] by simp
qed

lemma reach_hardened_gate:
  assumes "rtranclp (step_hardened models) s s'"
  shows "window_defined s' = window_defined s \<and> getItem_throws s' = getItem_throws s
    \<and> (sessionStorage s onceKey = Some ''1'' \<longrightarrow> sessionStorage s' onceKey = Some ''1'')"
  using assms
proof (induction rule: rtranclp_induct)
  case base
  show ?case by simp
next
  case (step y z)
  then show ?case using step_hardened_gate [of models y z] by simp
qed

lemma reach_modern_shown: "rtranclp (step_modern models) s s' \<Longrightarrow> shown s \<Longrightarrow> shown s'"
  using reach_modern_gate [of models s s'] by (simp add: shown_eq)

lemma reach_hardened_shown: "rtranclp (step_hardened models) s s' \<Longrightarrow> shown s \<Longrightarrow> shown s'"
  using reach_hardened_gate [of models s s'] by (simp add: shown_eq)

subsection \<open>Proceeding from the interstitial\<close>

text \<open>
  C2 (as amended). For \<open>proceed\<close> with a pending record \<open>r\<close> whose url is not empty, in a
  browser where \<open>window\<close> is defined: the modern revision always calls \<open>window.open\<close>
  with the sponsor URL and then with \<open>url r\<close>, in this order, writes the gate flag (the
  write takes effect unless \<open>setItem\<close> throws), clears the pending record and completes
  normally; the hardened revision does the same provided the sponsor call does not throw
  (it then throws exactly when the second call does), and when the sponsor call throws it
  stops there, with the flag not written and the record's url not opened. With no pending
  record, or one whose url is empty: the hardened revision still makes the sponsor call
  and writes the flag, and makes no second call; the modern revision only clears the
  pending record, with no call of \<open>window.open\<close> and no write of the flag.
\<close>

theorem proceed_opens:
  "(interstitialFor s = Some r \<and> url r \<noteq> [] \<and> window_defined s \<longrightarrow>
      proceed_modern s =
        (Normal (),
         s\<lparr>interstitialFor := None,
           open_calls := open_calls s @ [adUrl s, url r],
           sessionStorage :=
             (if setItem_throws s then sessionStorage s else (sessionStorage s)(onceKey \<mapsto> ''1''))\<rparr>))
   \<and> (interstitialFor s = Some r \<and> url r \<noteq> [] \<and> window_defined s \<and> \<not> open_throws s (adUrl s) \<longrightarrow>
      proceed_hardened s =
        (if open_throws s (url r) then Throw else Normal (),
         s\<lparr>interstitialFor := None,
           open_calls := open_calls s @ [adUrl s, url r],
           sessionStorage :=
             (if setItem_throws s then sessionStorage s else (sessionStorage s)(onceKey \<mapsto> ''1''))\<rparr>))
   \<and> ((case interstitialFor a of None \<Rightarrow> True | Some e \<Rightarrow> url e = [])
        \<and> window_defined a \<and> \<not> open_throws a (adUrl a) \<longrightarrow>
      proceed_hardened a =
        (Normal (),
         a\<lparr>interstitialFor := None,
           open_calls := open_calls a @ [adUrl a],
           sessionStorage :=
             (if setItem_throws a then sessionStorage a else (sessionStorage a)(onceKey \<mapsto> ''1''))\<rparr>))
   \<and> ((case interstitialFor a of None \<Rightarrow> True | Some e \<Rightarrow> url e = []) \<longrightarrow>
      proceed_modern a = (Normal (), a\<lparr>interstitialFor := None\<rparr>))
   \<and> (window_defined t \<and> open_throws t (adUrl t) \<longrightarrow>
      proceed_hardened t =
        (Throw, t\<lparr>interstitialFor := None, open_calls := open_calls t @ [adUrl t]\<rparr>))"
  using proceed_modern_pending [of s r] proceed_hardened_pending [of s r]
    proceed_hardened_absent [of a] proceed_modern_absent [of a]
    proceed_hardened_sponsor_throws [of t]
  by blast

lemma url_MODELS:
  "url (MODELS ! 0) = ''https://link-shortner-indol-nu.vercel.app/v0riwp''"
  "url (MODELS ! 1) = ''https://link-shortner-indol-nu.vercel.app/gpvegn''"
  by (simp_all add: MODELS_def RAW_MODELS_def normalize_def)

lemma adUrl_update [simp]:
  "adUrl (s\<lparr>interstitialFor := x\<rparr>) = adUrl s"
  "adUrl (s\<lparr>open_calls := c\<rparr>) = adUrl s"
  "adUrl (s\<lparr>sessionStorage := m\<rparr>) = adUrl s"
  "adUrl (s\<lparr>open_throws := f\<rparr>) = adUrl s"
  "adUrl (s\<lparr>setItem_throws := b\<rparr>) = adUrl s"
  "adUrl (s\<lparr>getItem_throws := b\<rparr>) = adUrl s"
  by (simp_all add: adUrl_def)

lemma adUrl_freshPage [simp]: "adUrl freshPage = ''https://otieu.com/4/9449507''"
  by (simp add: adUrl_def freshPage_def)

text \<open>A fresh page with the first record pending: both revisions open the sponsor and
  then the record's url and set the flag. A fresh page with nothing pending: the modern
  revision changes nothing, the hardened one opens the sponsor and sets the flag. A
  browser whose \<open>window.open\<close> throws: the hardened revision throws with the flag unset.\<close>

theorem proceed_opens_witness:
  "interstitialFor (freshPage\<lparr>interstitialFor := Some (MODELS ! 0)\<rparr>) = Some (MODELS ! 0)
   \<and> url (MODELS ! 0) \<noteq> []
   \<and> window_defined (freshPage\<lparr>interstitialFor := Some (MODELS ! 0)\<rparr>)
   \<and> fst (proceed_modern (freshPage\<lparr>interstitialFor := Some (MODELS ! 0)\<rparr>)) = Normal ()
   \<and> open_calls (snd (proceed_modern (freshPage\<lparr>interstitialFor := Some (MODELS ! 0)\<rparr>)))
       = [''https://otieu.com/4/9449507'', ''https://link-shortner-indol-nu.vercel.app/v0riwp'']
   \<and> sessionStorage (snd (proceed_modern (freshPage\<lparr>interstitialFor := Some (MODELS ! 0)\<rparr>))) onceKey
       = Some ''1''
   \<and> proceed_hardened (freshPage\<lparr>interstitialFor := Some (MODELS ! 0)\<rparr>)
       = proceed_modern (freshPage\<lparr>interstitialFor := Some (MODELS ! 0)\<rparr>)
   \<and> interstitialFor freshPage = None
   \<and> proceed_modern freshPage = (Normal (), freshPage)
   \<and> open_calls (snd (proceed_hardened freshPage)) = [''https://otieu.com/4/9449507'']
   \<and> sessionStorage (snd (proceed_hardened freshPage)) onceKey = Some ''1''
   \<and> open_throws (freshPage\<lparr>open_throws := (\<lambda>u. True)\<rparr>) (adUrl (freshPage\<lparr>open_throws := (\<lambda>u. True)\<rparr>))
   \<and> fst (proceed_hardened (freshPage\<lparr>open_throws := (\<lambda>u. True)\<rparr>)) = Throw
   \<and> sessionStorage (snd (proceed_hardened (freshPage\<lparr>open_throws := (\<lambda>u. True)\<rparr>))) onceKey = None"
proof -
  let ?p = "freshPage\<lparr>interstitialFor := Some (MODELS ! 0)\<rparr>"
  let ?t = "freshPage\<lparr>open_throws := (\<lambda>u. True)\<rparr>"
  note w = proceed_opens [where s = ?p and r = "MODELS ! 0" and a = freshPage and t = ?t]
  have f: "window_defined freshPage" "\<not> setItem_throws freshPage" "interstitialFor freshPage = None"
    "\<not> open_throws freshPage u" "open_calls freshPage = []" "sessionStorage freshPage = Map.empty"
    for u by (simp_all add: freshPage_def)
  have u: "url (MODELS ! 0) \<noteq> []" by (simp add: url_MODELS)
  have fp: "freshPage\<lparr>interstitialFor := None\<rparr> = freshPage" by (simp add: freshPage_def)
  have m: "proceed_modern ?p =
      (Normal (), freshPage\<lparr>open_calls := [adUrl ?p, url (MODELS ! 0)],
         sessionStorage := [onceKey \<mapsto> ''1'']\<rparr>)"
    using w u f by simp
  have h: "proceed_hardened ?p =
      (Normal (), freshPage\<lparr>open_calls := [adUrl ?p, url (MODELS ! 0)],
         sessionStorage := [onceKey \<mapsto> ''1'']\<rparr>)"
    using w u f by simp
  have a1: "proceed_modern freshPage = (Normal (), freshPage)"
    using w f fp by simp
  have a2: "proceed_hardened freshPage =
      (Normal (), freshPage\<lparr>open_calls := [adUrl freshPage], sessionStorage := [onceKey \<mapsto> ''1'']\<rparr>)"
    using w f fp by simp
  have t: "proceed_hardened ?t = (Throw, ?t\<lparr>open_calls := [adUrl ?t]\<rparr>)"
    using w f fp by simp
  show ?thesis
    unfolding m h a1 a2 t using u f by (simp add: url_MODELS)
qed

text \<open>C2 as stated fails on the modern revision: with no pending record, \<open>proceed\<close>
  makes no sponsor call and does not mark the gate.\<close>

theorem proceed_modern_absent_counterexample:
  "interstitialFor freshPage = None
   \<and> open_calls (snd (proceed_modern freshPage)) = []
   \<and> sessionStorage (snd (proceed_modern freshPage)) onceKey = None
   \<and> \<not> shown (snd (proceed_modern freshPage))"
  by (simp add: proceed_modern_absent shown_eq freshPage_def)

subsection \<open>Opening a link\<close>

lemma proceed_modern_shown:
  assumes "interstitialFor p = Some r" and "url r \<noteq> []"
    and "window_defined p" and "\<not> getItem_throws p" and "\<not> setItem_throws p"
  shows "shown (snd (proceed_modern p))"
  using assms by (simp add: proceed_modern_pending shown_eq)

lemma proceed_hardened_shown:
  assumes "window_defined p" and "\<not> getItem_throws p" and "\<not> setItem_throws p"
    and "fst (proceed_hardened p) = Normal ()"
  shows "shown (snd (proceed_hardened p))"
proof (cases "open_throws p (adUrl p)")
  case True
  then show ?thesis using assms by (simp add: proceed_hardened_sponsor_throws)
next
  case False
  show ?thesis
  proof (cases "case interstitialFor p of None \<Rightarrow> True | Some e \<Rightarrow> url e = []")
    case True
    then show ?thesis using assms False by (simp add: proceed_hardened_absent shown_eq)
  next
    case False
    then obtain r where "interstitialFor p = Some r" and "url r \<noteq> []"
      by (auto split: option.splits)
    then show ?thesis
      using assms \<open>\<not> open_throws p (adUrl p)\<close> by (simp add: proceed_hardened_pending shown_eq)
  qed
qed

text \<open>
  C1 (as amended). In both revisions \<open>openLink\<close> with no record, or with a record whose
  url is empty, changes nothing and completes normally. With a record \<open>r\<close> whose url is
  not empty, while the gate reads as not shown, it only sets the pending record to \<open>r\<close>
  (no call of \<open>window.open\<close>). After \<open>proceed\<close> has completed normally from a state
  with a pending record, in a browser where \<open>window\<close> is defined and neither \<open>getItem\<close>
  nor \<open>setItem\<close> throws, the gate reads as shown. From a state where the gate reads as
  shown, after any further steps of the component, the gate still reads as shown and
  \<open>openLink\<close> with a record \<open>n\<close> whose url is not empty makes exactly one call of
  \<open>window.open\<close>, with \<open>url n\<close>, and leaves the pending record as it is (the hardened
  revision then throws if that call throws).
\<close>

theorem openLink_gate:
  "openLink_modern None s = (Normal (), s) \<and> openLink_hardened None s = (Normal (), s)
   \<and> (url e = [] \<longrightarrow>
        openLink_modern (Some e) s = (Normal (), s) \<and> openLink_hardened (Some e) s = (Normal (), s))
   \<and> (url r \<noteq> [] \<and> \<not> shown s \<longrightarrow>
        openLink_modern (Some r) s = (Normal (), s\<lparr>interstitialFor := Some r\<rparr>)
        \<and> openLink_hardened (Some r) s = (Normal (), s\<lparr>interstitialFor := Some r\<rparr>))
   \<and> (interstitialFor p = Some r \<and> url r \<noteq> []
        \<and> window_defined p \<and> \<not> getItem_throws p \<and> \<not> setItem_throws p \<longrightarrow>
        fst (proceed_modern p) = Normal () \<and> shown (snd (proceed_modern p))
        \<and> (fst (proceed_hardened p) = Normal () \<longrightarrow> shown (snd (proceed_hardened p))))
   \<and> (shown g \<and> rtranclp (step_modern models) g g' \<and> url n \<noteq> [] \<longrightarrow>
        shown g' \<and> openLink_modern (Some n) g' = (Normal (), g'\<lparr>open_calls := open_calls g' @ [url n]\<rparr>))
   \<and> (shown h \<and> rtranclp (step_hardened models) h h' \<and> url n \<noteq> [] \<longrightarrow>
        shown h' \<and> snd (openLink_hardened (Some n) h') = h'\<lparr>open_calls := open_calls h' @ [url n]\<rparr>
        \<and> fst (openLink_hardened (Some n) h') = (if open_throws h' (url n) then Throw else Normal ()))"
proof -
  have a: "openLink_modern None s = (Normal (), s)" "openLink_hardened None s = (Normal (), s)"
    by (simp_all add: openLink_modern_eq openLink_hardened_eq)
  have b: "url e = [] \<longrightarrow>
      openLink_modern (Some e) s = (Normal (), s) \<and> openLink_hardened (Some e) s = (Normal (), s)"
    by (simp add: openLink_modern_eq openLink_hardened_eq)
  have c: "url r \<noteq> [] \<and> \<not> shown s \<longrightarrow>
      openLink_modern (Some r) s = (Normal (), s\<lparr>interstitialFor := Some r\<rparr>)
      \<and> openLink_hardened (Some r) s = (Normal (), s\<lparr>interstitialFor := Some r\<rparr>)"
    by (simp add: openLink_modern_eq openLink_hardened_eq)
  have d: "interstitialFor p = Some r \<and> url r \<noteq> []
      \<and> window_defined p \<and> \<not> getItem_throws p \<and> \<not> setItem_throws p \<longrightarrow>
      fst (proceed_modern p) = Normal () \<and> shown (snd (proceed_modern p))
      \<and> (fst (proceed_hardened p) = Normal () \<longrightarrow> shown (snd (proceed_hardened p)))"
    using proceed_modern_shown [of p r] proceed_hardened_shown [of p]
    by (simp add: proceed_modern_pending)
  have e: "shown g \<and> rtranclp (step_modern models) g g' \<and> url n \<noteq> [] \<longrightarrow>
      shown g' \<and> openLink_modern (Some n) g' = (Normal (), g'\<lparr>open_calls := open_calls g' @ [url n]\<rparr>)"
    using reach_modern_shown [of models g g'] by (simp add: openLink_modern_eq)
  have f: "shown h \<and> rtranclp (step_hardened models) h h' \<and> url n \<noteq> [] \<longrightarrow>
      shown h' \<and> snd (openLink_hardened (Some n) h') = h'\<lparr>open_calls := open_calls h' @ [url n]\<rparr>
      \<and> fst (openLink_hardened (Some n) h') = (if open_throws h' (url n) then Throw else Normal ())"
    using reach_hardened_shown [of models h h'] by (simp add: openLink_hardened_eq)
  show ?thesis using a b c d e f by blast
qed

text \<open>The session of the specification's scenario: on a fresh page a click on the first
  record makes it pending; \<open>proceed\<close> sets the gate; after a further step, a click on the
  second record opens its url at once. The three calls of \<open>window.open\<close> are the sponsor,
  the first record and the second record.\<close>

theorem openLink_gate_witness:
  "openLink_modern None freshPage = (Normal (), freshPage)
   \<and> openLink_hardened None freshPage = (Normal (), freshPage)
   \<and> url ((MODELS ! 2)\<lparr>url := []\<rparr>) = []
   \<and> openLink_modern (Some ((MODELS ! 2)\<lparr>url := []\<rparr>)) freshPage = (Normal (), freshPage)
   \<and> openLink_hardened (Some ((MODELS ! 2)\<lparr>url := []\<rparr>)) freshPage = (Normal (), freshPage)
   \<and> \<not> shown freshPage \<and> url (MODELS ! 0) \<noteq> [] \<and> url (MODELS ! 1) \<noteq> []
   \<and> openLink_modern (Some (MODELS ! 0)) freshPage
       = (Normal (), freshPage\<lparr>interstitialFor := Some (MODELS ! 0)\<rparr>)
   \<and> openLink_hardened (Some (MODELS ! 0)) freshPage
       = (Normal (), freshPage\<lparr>interstitialFor := Some (MODELS ! 0)\<rparr>)
   \<and> shown (snd (proceed_modern (freshPage\<lparr>interstitialFor := Some (MODELS ! 0)\<rparr>)))
   \<and> shown (snd (proceed_hardened (freshPage\<lparr>interstitialFor := Some (MODELS ! 0)\<rparr>)))
   \<and> rtranclp (step_modern MODELS)
        (snd (proceed_modern (freshPage\<lparr>interstitialFor := Some (MODELS ! 0)\<rparr>)))
        (setQuery ''bio'' (snd (proceed_modern (freshPage\<lparr>interstitialFor := Some (MODELS ! 0)\<rparr>))))
   \<and> open_calls (snd (openLink_modern (Some (MODELS ! 1))
        (setQuery ''bio'' (snd (proceed_modern (freshPage\<lparr>interstitialFor := Some (MODELS ! 0)\<rparr>))))))
       = [''https://otieu.com/4/9449507'',
          ''https://link-shortner-indol-nu.vercel.app/v0riwp'',
          ''https://link-shortner-indol-nu.vercel.app/gpvegn'']
   \<and> interstitialFor (snd (openLink_modern (Some (MODELS ! 1))
        (setQuery ''bio'' (snd (proceed_modern (freshPage\<lparr>interstitialFor := Some (MODELS ! 0)\<rparr>))))))
       = None
   \<and> rtranclp (step_hardened MODELS)
        (snd (proceed_hardened (freshPage\<lparr>interstitialFor := Some (MODELS ! 0)\<rparr>)))
        (onTouchStart (Some 3) (snd (proceed_hardened (freshPage\<lparr>interstitialFor := Some (MODELS ! 0)\<rparr>))))
   \<and> open_calls (snd (openLink_hardened (Some (MODELS ! 1))
        (onTouchStart (Some 3) (snd (proceed_hardened (freshPage\<lparr>interstitialFor := Some (MODELS ! 0)\<rparr>))))))
       = [''https://otieu.com/4/9449507'',
          ''https://link-shortner-indol-nu.vercel.app/v0riwp'',
          ''https://link-shortner-indol-nu.vercel.app/gpvegn'']
   \<and> interstitialFor (snd (openLink_hardened (Some (MODELS ! 1))
        (onTouchStart (Some 3) (snd (proceed_hardened (freshPage\<lparr>interstitialFor := Some (MODELS ! 0)\<rparr>))))))
       = None"
proof -
  let ?P = "freshPage\<lparr>interstitialFor := Some (MODELS ! 0)\<rparr>"
  let ?G = "snd (proceed_modern ?P)"
  let ?G' = "setQuery ''bio'' ?G"
  let ?H = "snd (proceed_hardened ?P)"
  let ?H' = "onTouchStart (Some 3) ?H"
  note f = freshPage_fields
  have u: "url (MODELS ! 0) \<noteq> []" "url (MODELS ! 1) \<noteq> []"
    unfolding url_MODELS by simp_all
  have P: "interstitialFor ?P = Some (MODELS ! 0)" "window_defined ?P" "\<not> getItem_throws ?P"
    "\<not> setItem_throws ?P" "\<not> open_throws ?P (adUrl ?P)" "\<not> open_throws ?P (url (MODELS ! 0))"
    using f by simp_all
  have G: "?G = freshPage\<lparr>interstitialFor := None,
      open_calls := [''https://otieu.com/4/9449507'', url (MODELS ! 0)],
      sessionStorage := [onceKey \<mapsto> ''1'']\<rparr>"
    using proceed_modern_pending [of ?P "MODELS ! 0"] P u f by simp
  have H: "?H = freshPage\<lparr>interstitialFor := None,
      open_calls := [''https://otieu.com/4/9449507'', url (MODELS ! 0)],
      sessionStorage := [onceKey \<mapsto> ''1'']\<rparr>"
    using proceed_hardened_pending [of ?P "MODELS ! 0"] P u f by simp
  have hn: "fst (proceed_hardened ?P) = Normal ()"
    using proceed_hardened_pending [of ?P "MODELS ! 0"] P u by simp
  note w = openLink_gate [where s = freshPage and r = "MODELS ! 0" and p = ?P
      and e = "(MODELS ! 2)\<lparr>url := []\<rparr>"
      and models = MODELS and n = "MODELS ! 1" and g = ?G and g' = ?G' and h = ?H and h' = ?H']
  have ns: "\<not> shown freshPage" by (simp add: shown_eq f)
  have e0: "url ((MODELS ! 2)\<lparr>url := []\<rparr>) = []" by simp
  have n0: "openLink_modern None freshPage = (Normal (), freshPage)"
    "openLink_hardened None freshPage = (Normal (), freshPage)"
    using w by blast+
  have n1: "openLink_modern (Some ((MODELS ! 2)\<lparr>url := []\<rparr>)) freshPage = (Normal (), freshPage)"
    "openLink_hardened (Some ((MODELS ! 2)\<lparr>url := []\<rparr>)) freshPage = (Normal (), freshPage)"
    using w e0 by blast+
  have c: "openLink_modern (Some (MODELS ! 0)) freshPage = (Normal (), ?P)"
    "openLink_hardened (Some (MODELS ! 0)) freshPage = (Normal (), ?P)"
    using w ns u by blast+
  have sg: "shown ?G" using w P u by blast
  have sh: "shown ?H" using w P u hn by blast
  have rg: "rtranclp (step_modern MODELS) ?G ?G'" by (rule r_into_rtranclp) (rule sm_query)
  have rh: "rtranclp (step_hardened MODELS) ?H ?H'" by (rule r_into_rtranclp) (rule sh_touchStart)
  have og: "openLink_modern (Some (MODELS ! 1)) ?G' = (Normal (), ?G'\<lparr>open_calls := open_calls ?G' @ [url (MODELS ! 1)]\<rparr>)"
    using w sg rg u by blast
  have oh: "snd (openLink_hardened (Some (MODELS ! 1)) ?H') = ?H'\<lparr>open_calls := open_calls ?H' @ [url (MODELS ! 1)]\<rparr>"
    using w sh rh u by blast
  have og': "open_calls (snd (openLink_modern (Some (MODELS ! 1)) ?G'))
      = [''https://otieu.com/4/9449507'', url (MODELS ! 0), url (MODELS ! 1)]"
    "interstitialFor (snd (openLink_modern (Some (MODELS ! 1)) ?G')) = None"
    unfolding og by (simp_all add: G setQuery_def f)
  have oh': "open_calls (snd (openLink_hardened (Some (MODELS ! 1)) ?H'))
      = [''https://otieu.com/4/9449507'', url (MODELS ! 0), url (MODELS ! 1)]"
    "interstitialFor (snd (openLink_hardened (Some (MODELS ! 1)) ?H')) = None"
    unfolding oh by (simp_all add: H onTouchStart_def f)
  show ?thesis
    using e0 n0 n1 ns u c sg sh rg rh og' oh' unfolding url_MODELS by blast
qed

text \<open>C1 as stated fails where the session store cannot be written: \<open>proceed\<close> completes
  and makes its two calls, the gate still reads as not shown, and the next click makes no
  call of \<open>window.open\<close> but sets the pending record again.\<close>

theorem openLink_gate_counterexample:
  "setItem_throws (freshPage\<lparr>setItem_throws := True\<rparr>)
   \<and> openLink_modern (Some (MODELS ! 0)) (freshPage\<lparr>setItem_throws := True\<rparr>)
       = (Normal (), freshPage\<lparr>setItem_throws := True, interstitialFor := Some (MODELS ! 0)\<rparr>)
   \<and> fst (proceed_modern (freshPage\<lparr>setItem_throws := True, interstitialFor := Some (MODELS ! 0)\<rparr>))
       = Normal ()
   \<and> open_calls (snd (proceed_modern (freshPage\<lparr>setItem_throws := True, interstitialFor := Some (MODELS ! 0)\<rparr>)))
       = [''https://otieu.com/4/9449507'', ''https://link-shortner-indol-nu.vercel.app/v0riwp'']
   \<and> \<not> shown (snd (proceed_modern (freshPage\<lparr>setItem_throws := True, interstitialFor := Some (MODELS ! 0)\<rparr>)))
   \<and> open_calls (snd (openLink_modern (Some (MODELS ! 1))
        (snd (proceed_modern (freshPage\<lparr>setItem_throws := True, interstitialFor := Some (MODELS ! 0)\<rparr>)))))
       = [''https://otieu.com/4/9449507'', ''https://link-shortner-indol-nu.vercel.app/v0riwp'']
   \<and> interstitialFor (snd (openLink_modern (Some (MODELS ! 1))
        (snd (proceed_modern (freshPage\<lparr>setItem_throws := True, interstitialFor := Some (MODELS ! 0)\<rparr>)))))
       = Some (MODELS ! 1)"
proof -
  let ?s = "freshPage\<lparr>setItem_throws := True\<rparr>"
  let ?P = "freshPage\<lparr>setItem_throws := True, interstitialFor := Some (MODELS ! 0)\<rparr>"
  note f = freshPage_fields
  have u: "url (MODELS ! 0) \<noteq> []" "url (MODELS ! 1) \<noteq> []"
    unfolding url_MODELS by simp_all
  have ns: "\<not> shown ?s" by (simp add: shown_eq f)
  have a: "openLink_modern (Some (MODELS ! 0)) ?s = (Normal (), ?P)"
    using ns u by (simp add: openLink_modern_eq)
  have b: "proceed_modern ?P =
      (Normal (), freshPage\<lparr>setItem_throws := True, interstitialFor := None,
         open_calls := [''https://otieu.com/4/9449507'', url (MODELS ! 0)]\<rparr>)"
    using proceed_modern_pending [of ?P "MODELS ! 0"] u f by simp
  have c: "\<not> shown (snd (proceed_modern ?P))" unfolding b by (simp add: shown_eq f)
  have d: "openLink_modern (Some (MODELS ! 1)) (snd (proceed_modern ?P))
      = (Normal (), (snd (proceed_modern ?P))\<lparr>interstitialFor := Some (MODELS ! 1)\<rparr>)"
    using c u by (simp add: openLink_modern_eq)
  show ?thesis unfolding d a unfolding b by (simp add: url_MODELS shown_eq f)
qed

subsection \<open>Dismissing, and the gate flag over time\<close>

text \<open>
  C3. Dismissing the interstitial only clears the pending record: the session store, and
  so what the gate reads, stay as they were, and while the gate reads as not shown the next
  \<open>openLink\<close> with a record whose url is not empty makes that record pending again.
  Once the store holds the flag, it holds it after any sequence of steps of the component,
  in both revisions; and once the gate reads as shown, it reads as shown after any
  sequence of steps.
\<close>

theorem gate_monotone:
  "dismiss s = (Normal (), s\<lparr>interstitialFor := None\<rparr>)
   \<and> sessionStorage (snd (dismiss s)) = sessionStorage s
   \<and> shown (snd (dismiss s)) = shown s
   \<and> (\<not> shown s \<and> url r \<noteq> [] \<longrightarrow>
        openLink_modern (Some r) (snd (dismiss s)) = (Normal (), s\<lparr>interstitialFor := Some r\<rparr>))
   \<and> (sessionStorage g onceKey = Some ''1'' \<and> rtranclp (step_modern models) g g' \<longrightarrow>
        sessionStorage g' onceKey = Some ''1'')
   \<and> (sessionStorage h onceKey = Some ''1'' \<and> rtranclp (step_hardened models) h h' \<longrightarrow>
        sessionStorage h' onceKey = Some ''1'')
   \<and> (shown g \<and> rtranclp (step_modern models) g g' \<longrightarrow> shown g')
   \<and> (shown h \<and> rtranclp (step_hardened models) h h' \<longrightarrow> shown h')"
proof -
  have d: "dismiss s = (Normal (), s\<lparr>interstitialFor := None\<rparr>)"
    by (simp add: dismiss_def setInterstitialFor_def)
  have a: "sessionStorage (snd (dismiss s)) = sessionStorage s" "shown (snd (dismiss s)) = shown s"
    by (simp_all add: d shown_eq)
  have b: "\<not> shown s \<and> url r \<noteq> [] \<longrightarrow>
      openLink_modern (Some r) (snd (dismiss s)) = (Normal (), s\<lparr>interstitialFor := Some r\<rparr>)"
    by (simp add: d openLink_modern_eq shown_eq)
  show ?thesis
    using d a b reach_modern_gate [of models g g'] reach_hardened_gate [of models h h']
      reach_modern_shown [of models g g'] reach_hardened_shown [of models h h']
    by blast
qed

text \<open>A dismissed interstitial on a fresh page: the gate still reads as not shown and the
  same click makes the record pending again. A page whose store holds the flag still
  holds it after a dismissal (modern revision) and after \<open>proceed\<close> (hardened revision).\<close>

theorem gate_monotone_witness:
  "\<not> shown (freshPage\<lparr>interstitialFor := Some (MODELS ! 0)\<rparr>) \<and> url (MODELS ! 0) \<noteq> []
   \<and> interstitialFor (snd (dismiss (freshPage\<lparr>interstitialFor := Some (MODELS ! 0)\<rparr>))) = None
   \<and> \<not> shown (snd (dismiss (freshPage\<lparr>interstitialFor := Some (MODELS ! 0)\<rparr>)))
   \<and> open_calls (snd (dismiss (freshPage\<lparr>interstitialFor := Some (MODELS ! 0)\<rparr>))) = []
   \<and> interstitialFor (snd (openLink_modern (Some (MODELS ! 0))
        (snd (dismiss (freshPage\<lparr>interstitialFor := Some (MODELS ! 0)\<rparr>))))) = Some (MODELS ! 0)
   \<and> shown (freshPage\<lparr>sessionStorage := [onceKey \<mapsto> ''1'']\<rparr>)
   \<and> rtranclp (step_modern MODELS) (freshPage\<lparr>sessionStorage := [onceKey \<mapsto> ''1'']\<rparr>)
        (snd (dismiss (freshPage\<lparr>sessionStorage := [onceKey \<mapsto> ''1'']\<rparr>)))
   \<and> shown (snd (dismiss (freshPage\<lparr>sessionStorage := [onceKey \<mapsto> ''1'']\<rparr>)))
   \<and> rtranclp (step_hardened MODELS) (freshPage\<lparr>sessionStorage := [onceKey \<mapsto> ''1'']\<rparr>)
        (snd (proceed_hardened (freshPage\<lparr>sessionStorage := [onceKey \<mapsto> ''1'']\<rparr>)))
   \<and> shown (snd (proceed_hardened (freshPage\<lparr>sessionStorage := [onceKey \<mapsto> ''1'']\<rparr>)))
   \<and> sessionStorage (snd (proceed_hardened (freshPage\<lparr>sessionStorage := [onceKey \<mapsto> ''1'']\<rparr>))) onceKey
       = Some ''1''"
proof -
  let ?P = "freshPage\<lparr>interstitialFor := Some (MODELS ! 0)\<rparr>"
  let ?G = "freshPage\<lparr>sessionStorage := [onceKey \<mapsto> ''1'']\<rparr>"
  note f = freshPage_fields
  note w = gate_monotone [where s = ?P and r = "MODELS ! 0" and models = MODELS
      and g = ?G and g' = "snd (dismiss ?G)" and h = ?G and h' = "snd (proceed_hardened ?G)"]
  have u: "url (MODELS ! 0) \<noteq> []" unfolding url_MODELS by simp
  have ns: "\<not> shown ?P" by (simp add: shown_eq f)
  have sg: "shown ?G" "sessionStorage ?G onceKey = Some ''1''" by (simp_all add: shown_eq f)
  have rg: "rtranclp (step_modern MODELS) ?G (snd (dismiss ?G))"
    by (rule r_into_rtranclp) (rule sm_dismiss)
  have rh: "rtranclp (step_hardened MODELS) ?G (snd (proceed_hardened ?G))"
    by (rule r_into_rtranclp) (rule sh_proceed)
  have d: "dismiss ?P = (Normal (), ?P\<lparr>interstitialFor := None\<rparr>)" using w by blast
  have d1: "interstitialFor (snd (dismiss ?P)) = None" "open_calls (snd (dismiss ?P)) = []"
    unfolding d by (simp_all add: f)
  have d2: "\<not> shown (snd (dismiss ?P))" using w ns by blast
  have o: "openLink_modern (Some (MODELS ! 0)) (snd (dismiss ?P))
      = (Normal (), ?P\<lparr>interstitialFor := Some (MODELS ! 0)\<rparr>)"
    using w ns u by blast
  have o1: "interstitialFor (snd (openLink_modern (Some (MODELS ! 0)) (snd (dismiss ?P)))) = Some (MODELS ! 0)"
    unfolding o by simp
  have m1: "shown (snd (dismiss ?G))" using w sg rg by blast
  have m2: "shown (snd (proceed_hardened ?G))"
    "sessionStorage (snd (proceed_hardened ?G)) onceKey = Some ''1''"
    using w sg rh by blast+
  show ?thesis using ns u d1 d2 o1 sg rg rh m1 m2 by blast
qed

end
